theory Spec2Isabelle
  imports Main "HOL-Library.Word"
begin

section \<open>Formatting with the verb \<open>%v\<close>\<close>

text \<open>
  The fragment of Go's \<open>fmt.Sprintf\<close> (standard library) that the sources use: the
  format is copied byte by byte, and every verb \<open>%v\<close> is replaced by the next operand.
  All operands here are Go strings, which \<open>%v\<close> prints as they are. A verb without an
  operand prints \<open>%!v(MISSING)\<close>, as Go does.
\<close>

fun Sprintf :: "string \<Rightarrow> string list \<Rightarrow> string" where
  "Sprintf [] args = []"
| "Sprintf [c] args = [c]"
| "Sprintf (c # d # fmt) args =
     (if c = CHR ''%'' \<and> d = CHR ''v''
      then (case args of
              a # rest \<Rightarrow> a @ Sprintf fmt rest
            | [] \<Rightarrow> ''%!v(MISSING)'' @ Sprintf fmt [])
      else c # Sprintf (d # fmt) args)"

section \<open>Resource keys of a managed input (input-cursor/input.go)\<close>

text \<open>
  \<open>Source\<close> is an interface whose only method used here is \<open>Name()\<close>;
  \<open>InputManager\<close> is used through its field \<open>Type\<close> only. Of \<open>managedInput\<close> the
  fields \<open>manager\<close> and \<open>userID\<close> are the ones \<open>createSourceID\<close> reads.
\<close>

record Source =
  Source_Name :: string

record InputManager =
  Manager_Type :: string

record managedInput =
  manager :: InputManager
  userID :: string
  sources :: "Source list"

definition createSourceID :: "managedInput \<Rightarrow> Source \<Rightarrow> string" where
  "createSourceID inp s =
     (if userID inp \<noteq> ''''
      then Sprintf ''%v::%v::%v'' [Manager_Type (manager inp), userID inp, Source_Name s]
      else Sprintf ''%v::%v'' [Manager_Type (manager inp), Source_Name s])"

section \<open>Loader errors (package v2)\<close>

text \<open>
  Go's \<open>error\<close> is an interface; the values that occur are the package variable
  \<open>ErrUnknown\<close> (made by \<open>errors.New\<close> and compared by identity, so it is a constructor of its
  own), other plain errors, errors wrapping a cause (as \<open>sderr.Wrap\<close> builds them), and
  pointers to \<open>LoaderError\<close> with the four fields of the struct. A nil \<open>error\<close> is
  \<open>None\<close> of \<open>error option\<close>.
\<close>

type_synonym diag_Context = "(string \<times> string) list"

datatype error =
    ErrUnknown
  | ErrorString string
  | WrappedError string error
  | LoaderErrorPtr
      (Diagnostics: "diag_Context option")
      (LoaderError_Name: string)
      (Reason: "error option")
      (Message: string)

text \<open>\<open>Unwrap\<close> of \<open>*LoaderError\<close> returns the reason; a wrapped error returns its cause.\<close>

fun Unwrap :: "error \<Rightarrow> error option" where
  "Unwrap (LoaderErrorPtr d n r m) = r"
| "Unwrap (WrappedError m e) = Some e"
| "Unwrap e = None"

text \<open>
  \<open>sderr.Is(err, target)\<close> (library github.com/urso/sderr) reports whether an error of the
  chain that \<open>Unwrap\<close> spans from \<open>err\<close> is \<open>target\<close>; on a nil \<open>err\<close> it is false.
\<close>

fun error_Is :: "error \<Rightarrow> error \<Rightarrow> bool" where
  "error_Is (LoaderErrorPtr d n (Some e) m) target =
     (LoaderErrorPtr d n (Some e) m = target \<or> error_Is e target)"
| "error_Is (WrappedError m e) target = (WrappedError m e = target \<or> error_Is e target)"
| "error_Is e target = (e = target)"

definition sderr_Is :: "error option \<Rightarrow> error \<Rightarrow> bool" where
  "sderr_Is err target = (case err of None \<Rightarrow> False | Some e \<Rightarrow> error_Is e target)"

definition IsUnknownInputError :: "error option \<Rightarrow> bool" where
  "IsUnknownInputError err = sderr_Is err ErrUnknown"

section \<open>The composed runner factory (compat/composed.go)\<close>

text \<open>
  \<open>cfgfile.RunnerFactory\<close> is an interface with the methods \<open>CheckConfig\<close> and \<open>Create\<close>.
  An implementation may do anything to the rest of the program, so each method is a
  function of the state \<open>'w\<close> of everything outside the composed factory and returns the
  state it leaves behind. \<open>Create\<close> returns Go's pair of a runner (nil is \<open>None\<close>) and an
  error.
\<close>

record ('p, 'c, 'm, 'r, 'w) RunnerFactory =
  CheckConfig :: "'c \<Rightarrow> 'w \<Rightarrow> error option \<times> 'w"
  Create :: "'p \<Rightarrow> 'c \<Rightarrow> 'm \<Rightarrow> 'w \<Rightarrow> ('r option \<times> error option) \<times> 'w"

record ('p, 'c, 'm, 'r, 'w) composeFactory =
  factory :: "('p, 'c, 'm, 'r, 'w) RunnerFactory"
  fallback :: "('p, 'c, 'm, 'r, 'w) RunnerFactory"

definition Combine ::
  "('p, 'c, 'm, 'r, 'w) RunnerFactory \<Rightarrow> ('p, 'c, 'm, 'r, 'w) RunnerFactory \<Rightarrow>
   ('p, 'c, 'm, 'r, 'w) composeFactory" where
  "Combine fa fb = \<lparr>factory = fa, fallback = fb\<rparr>"

definition composeFactory_CheckConfig ::
  "('p, 'c, 'm, 'r, 'w) composeFactory \<Rightarrow> 'c \<Rightarrow> 'w \<Rightarrow> error option \<times> 'w" where
  "composeFactory_CheckConfig f cfg w =
     (case CheckConfig (factory f) cfg w of
        (err, w1) \<Rightarrow>
          if err = None then (None, w1)
          else CheckConfig (fallback f) cfg w1)"

definition composeFactory_Create ::
  "('p, 'c, 'm, 'r, 'w) composeFactory \<Rightarrow> 'p \<Rightarrow> 'c \<Rightarrow> 'm \<Rightarrow> 'w \<Rightarrow>
   ('r option \<times> error option) \<times> 'w" where
  "composeFactory_Create f p config meta w =
     (case Create (factory f) p config meta w of
        ((runner, err1), w1) \<Rightarrow>
          if err1 = None then ((runner, None), w1)
          else
            (case Create (fallback f) p config meta w1 of
               ((runner2, err2), w2) \<Rightarrow>
                 if err2 = None then ((runner2, None), w2)
                 else if sderr_Is err1 ErrUnknown then ((None, err2), w2)
                 else ((None, err1), w2)))"

text \<open>
  Factories to run the composed factory on. The state they act on is the list of the
  calls made so far, and each call appends the name of the factory. \<open>failing who e\<close> fails
  with the error \<open>e\<close>; \<open>accepting who\<close> accepts every configuration and returns a runner
  that carries its name.
\<close>

definition failing ::
  "string \<Rightarrow> error \<Rightarrow> (unit, unit, unit, string, string list) RunnerFactory" where
  "failing who e =
     \<lparr>CheckConfig = (\<lambda>cfg w. (Some e, w @ [who])),
      Create = (\<lambda>p cfg meta w. ((None, Some e), w @ [who]))\<rparr>"

definition accepting :: "string \<Rightarrow> (unit, unit, unit, string, string list) RunnerFactory" where
  "accepting who =
     \<lparr>CheckConfig = (\<lambda>cfg w. (None, w @ [who])),
      Create = (\<lambda>p cfg meta w. ((Some who, None), w @ [who]))\<rparr>"

section \<open>The plugin registry (package v2)\<close>

text \<open>
  The struct \<open>Plugin\<close> is declared outside the sources at hand; its fields are the ones
  the plugin of package \<open>grpcevt\<close> sets. \<open>Manager\<close> is an interface value, nil in the zero
  \<open>Plugin{}\<close>; \<open>Stability\<close> is the enumeration of package \<open>feature\<close>, whose zero value is
  \<open>Undefined\<close>.
\<close>

typedecl v2_InputManager

datatype Stability = Undefined | Stable | Beta | Experimental

record Plugin =
  Plugin_Name :: string
  Plugin_Stability :: Stability
  Deprecated :: bool
  Info :: string
  Doc :: string
  Plugin_Manager :: "v2_InputManager option"

definition Plugin_zero :: Plugin where
  "Plugin_zero =
     \<lparr>Plugin_Name = [], Plugin_Stability = Undefined, Deprecated = False, Info = [],
      Doc = [], Plugin_Manager = None\<rparr>"

text \<open>
  A registry holds a Go map from names to plugins and a slice of child registries.
  Registries are trees here: a registry that reaches itself through \<open>subs\<close> would make
  \<open>find\<close> and \<open>each\<close> recurse for ever.
\<close>

datatype Registry = Registry (plugins: "string \<Rightarrow> Plugin option") (subs: "Registry list")

text \<open>\<open>Registry.addToRegistry\<close>: a registry added to a parent is appended to its \<open>subs\<close>.\<close>

definition Registry_addToRegistry :: "Registry \<Rightarrow> Registry \<Rightarrow> Registry" where
  "Registry_addToRegistry c parent = Registry (plugins parent) (subs parent @ [c])"

text \<open>
  \<open>Registry.find\<close>: the lookup in the registry's own map, then the loop over \<open>subs\<close>, which
  returns at the first child that finds the name. On a miss it returns \<open>Plugin{}, false\<close>.
\<close>

fun Registry_find :: "Registry \<Rightarrow> string \<Rightarrow> Plugin \<times> bool"
  and find_in_subs :: "Registry list \<Rightarrow> string \<Rightarrow> Plugin \<times> bool" where
  "Registry_find (Registry ps ss) name =
     (case ps name of Some p \<Rightarrow> (p, True) | None \<Rightarrow> find_in_subs ss name)"
| "find_in_subs [] name = (Plugin_zero, False)"
| "find_in_subs (sub # rest) name =
     (case Registry_find sub name of
        (p, ok) \<Rightarrow> if ok then (p, ok) else find_in_subs rest name)"

definition Registry_Find :: "Registry \<Rightarrow> string \<Rightarrow> Plugin \<times> error option" where
  "Registry_Find c name =
     (case Registry_find c name of
        (plugin, ok) \<Rightarrow>
          if \<not> ok then (plugin, Some (LoaderErrorPtr None name (Some ErrUnknown) []))
          else (plugin, None))"

text \<open>
  Go does not specify the order in which \<open>range\<close> walks a map, and the order may differ
  from one loop to the next. \<open>map_range m kvs\<close> says that \<open>kvs\<close> is one order in which a
  \<open>range\<close> over \<open>m\<close> may yield its entries: every entry once.
\<close>

definition map_range :: "('k \<rightharpoonup> 'v) \<Rightarrow> ('k \<times> 'v) list \<Rightarrow> bool" where
  "map_range m kvs \<longleftrightarrow> distinct (map fst kvs) \<and> map_of kvs = m"

text \<open>
  The body of the first loop of \<open>each\<close> on the plugins in the order the \<open>range\<close> yields
  them. The callback is a closure: it reads and changes a state \<open>'s\<close> of its own. The
  result is the list of the plugins the callback was called on, whether the loop ran to
  its end (false: the callback returned false and \<open>each\<close> returns false), and the state.
\<close>

fun range_plugins ::
  "(Plugin \<Rightarrow> 's \<Rightarrow> bool \<times> 's) \<Rightarrow> Plugin list \<Rightarrow> 's \<Rightarrow> Plugin list \<times> bool \<times> 's" where
  "range_plugins fn [] s = ([], True, s)"
| "range_plugins fn (p # ps) s =
     (case fn p s of
        (cont, s') \<Rightarrow>
          if \<not> cont then ([p], False, s')
          else (case range_plugins fn ps s' of (vs, c, s'') \<Rightarrow> (p # vs, c, s'')))"

text \<open>
  \<open>Registry.each\<close>, as a relation between the registry, the callback, the state before
  and the outcome (the plugins visited, the value returned, the state after), since the
  order of the \<open>range\<close> over the map is not determined. The second loop, over \<open>subs\<close>, is
  \<open>each_in_subs\<close>.
\<close>

inductive Registry_each ::
    "Registry \<Rightarrow> (Plugin \<Rightarrow> 's \<Rightarrow> bool \<times> 's) \<Rightarrow> 's \<Rightarrow> Plugin list \<times> bool \<times> 's \<Rightarrow> bool"
  and each_in_subs ::
    "Registry list \<Rightarrow> (Plugin \<Rightarrow> 's \<Rightarrow> bool \<times> 's) \<Rightarrow> 's \<Rightarrow> Plugin list \<times> bool \<times> 's \<Rightarrow> bool"
where
  each_stop:
    "map_range (plugins r) kvs \<Longrightarrow> range_plugins fn (map snd kvs) s = (vs, False, s') \<Longrightarrow>
     Registry_each r fn s (vs, False, s')"
| each_subs:
    "map_range (plugins r) kvs \<Longrightarrow> range_plugins fn (map snd kvs) s = (vs, True, s') \<Longrightarrow>
     each_in_subs (subs r) fn s' (ws, c, s'') \<Longrightarrow>
     Registry_each r fn s (vs @ ws, c, s'')"
| subs_done:
    "each_in_subs [] fn s ([], True, s)"
| subs_stop:
    "Registry_each sub fn s (vs, False, s') \<Longrightarrow> each_in_subs (sub # rest) fn s (vs, False, s')"
| subs_next:
    "Registry_each sub fn s (vs, True, s') \<Longrightarrow> each_in_subs rest fn s' (ws, c, s'') \<Longrightarrow>
     each_in_subs (sub # rest) fn s (vs @ ws, c, s'')"

text \<open>\<open>Registry.Each\<close> wraps the callback and drops the value \<open>each\<close> returns.\<close>

definition Registry_Each ::
  "Registry \<Rightarrow> (Plugin \<Rightarrow> 's \<Rightarrow> bool \<times> 's) \<Rightarrow> 's \<Rightarrow> Plugin list \<times> 's \<Rightarrow> bool" where
  "Registry_Each r fn s out \<longleftrightarrow> (\<exists>c. Registry_each r (\<lambda>p. fn p) s (fst out, c, snd out))"

subsection \<open>The order of lookup and iteration, in the words of the specification\<close>

text \<open>
  "Direct plugins first, then children in insertion order", recursively: \<open>lookup_order\<close>
  lists the plugin maps of the registries of a tree in that order; \<open>first_match\<close> is the
  plugin found under a name in the first map of such a list that has the name.
  \<open>visit_order r kvs\<close> says that \<open>kvs\<close> lists the entries of the tree map by map in that
  order, the entries of one map in an order a \<open>range\<close> may yield.
\<close>

fun lookup_order :: "Registry \<Rightarrow> (string \<rightharpoonup> Plugin) list" where
  "lookup_order (Registry ps ss) = ps # concat (map lookup_order ss)"

primrec first_match :: "(string \<rightharpoonup> Plugin) list \<Rightarrow> string \<Rightarrow> Plugin option" where
  "first_match [] name = None"
| "first_match (m # ms) name =
     (case m name of Some p \<Rightarrow> Some p | None \<Rightarrow> first_match ms name)"

definition visit_order :: "Registry \<Rightarrow> (string \<times> Plugin) list \<Rightarrow> bool" where
  "visit_order r kvs \<longleftrightarrow>
     (\<exists>blocks. list_all2 map_range (lookup_order r) blocks \<and> kvs = concat blocks)"

text \<open>
  A Go map has finitely many entries. A plugin is added to a registry under its own name,
  so in a registry built by \<open>Add\<close> every key is the name of the plugin stored under it.
\<close>

definition finite_registry :: "Registry \<Rightarrow> bool" where
  "finite_registry r \<longleftrightarrow> (\<forall>m \<in> set (lookup_order r). finite (dom m))"

definition keyed_by_name :: "Registry \<Rightarrow> bool" where
  "keyed_by_name r \<longleftrightarrow>
     (\<forall>m \<in> set (lookup_order r). \<forall>k p. m k = Some p \<longrightarrow> Plugin_Name p = k)"

subsection \<open>Registries and a callback to run them on\<close>

definition plugin :: "string \<Rightarrow> string \<Rightarrow> Plugin" where
  "plugin name info =
     \<lparr>Plugin_Name = name, Plugin_Stability = Stable, Deprecated = False, Info = info,
      Doc = [], Plugin_Manager = None\<rparr>"

definition example_registry :: Registry where
  "example_registry =
     Registry [''a'' \<mapsto> plugin ''a'' ''root'']
       [Registry [''b'' \<mapsto> plugin ''b'' ''first child''] [],
        Registry [''b'' \<mapsto> plugin ''b'' ''second child'',
                  ''c'' \<mapsto> plugin ''c'' ''second child''] []]"

definition flat_registry :: Registry where
  "flat_registry = Registry [''a'' \<mapsto> plugin ''a'' ''x'', ''b'' \<mapsto> plugin ''b'' ''y''] []"

text \<open>
  A callback with no state that never stops, and a callback that records the names it
  sees and stops at a given name.
\<close>

definition visit_all :: "Plugin \<Rightarrow> unit \<Rightarrow> bool \<times> unit" where
  "visit_all p s = (True, s)"

definition stop_at :: "string \<Rightarrow> Plugin \<Rightarrow> string list \<Rightarrow> bool \<times> string list" where
  "stop_at name p seen = (Plugin_Name p \<noteq> name, seen @ [Plugin_Name p])"

section \<open>The store of cursor inputs (package exclinput)\<close>

subsection \<open>Resources and the documents written to the registry\<close>

text \<open>
  \<open>time.Time\<close> is an instant given by seconds and nanoseconds; \<open>IsZero\<close> holds for the
  zero value only. \<open>time.Duration\<close> is an \<open>int64\<close>. A value of type \<open>interface{}\<close> (a
  cursor) is nil or carries data.
\<close>

datatype Time = Time (sec: int) (nsec: int)

definition IsZero :: "Time \<Rightarrow> bool" where
  "IsZero t \<longleftrightarrow> sec t = 0 \<and> nsec t = 0"

type_synonym Duration = "64 word"

datatype Value = VNil | VInt int | VString string | VMap "(string \<times> Value) list"

record stateInternal =
  TTL :: Duration
  Updated :: Time

record state =
  Internal :: stateInternal
  Cursor :: Value

text \<open>
  \<open>pending\<close> is an \<open>atomic.Uint64\<close>; \<open>lock\<close> is a \<open>unison.Mutex\<close>, held or free.
\<close>

record resource =
  pending :: "64 word"
  lock :: bool
  stored :: bool
  internalInSync :: bool
  key :: string
  state :: state

text \<open>
  The three shapes of partial documents: \<open>registryStateUpdateCursor\<close> carries
  \<open>Internal.Updated\<close> and \<open>Cursor\<close>, \<open>registryStateUpdateInternal\<close> the whole of \<open>Internal\<close>,
  \<open>registryStateInsert\<close> the \<open>TTL\<close> alone.
\<close>

datatype registryValue =
    registryStateUpdateCursor Time Value
  | registryStateUpdateInternal stateInternal
  | registryStateInsert Duration

subsection \<open>The persistent store\<close>

text \<open>
  Modelled from the spec: \<open>statestore.Store.Update\<close> and \<open>Tx.Update\<close> of package
  \<open>libbeat/statestore\<close>, which is not among the sources. The specification says that
  \<open>Update(fn(tx))\<close> is an atomic read-write transaction, that \<open>tx.Update(key, partial)\<close>
  merges a partial document into the record of the key, and that \<open>Update\<close> returns only
  when the transaction is on stable storage. The store is the list of the transactions
  that were committed, each the list of its operations; \<open>attempted\<close> records the
  operations issued in every transaction that was run, committed or not. Whether an
  operation or the commit fails is not decided by the caller: \<open>txFaults\<close> gives, for one
  transaction, the error of its i-th operation and of its commit, if any.
\<close>

datatype txOp = TxUpdate string registryValue

record txFaults =
  opErr :: "nat \<Rightarrow> error option"
  commitErr :: "error option"

record Tx =
  tx_ops :: "txOp list"
  tx_opErr :: "nat \<Rightarrow> error option"

text \<open>
  Modelled from the spec: \<open>Tx.Update(key, partial)\<close>. The operation joins the
  transaction and returns the error the fault plan has for it.
\<close>

definition Tx_Update :: "string \<Rightarrow> registryValue \<Rightarrow> Tx \<Rightarrow> error option \<times> Tx" where
  "Tx_Update k v tx =
     (tx_opErr tx (length (tx_ops tx)), tx\<lparr>tx_ops := tx_ops tx @ [TxUpdate k v]\<rparr>)"

record persistentStore =
  committed :: "txOp list list"
  attempted :: "txOp list list"

text \<open>
  Modelled from the spec: \<open>Store.Update(fn)\<close>. It runs \<open>fn\<close> on a fresh transaction; when
  \<open>fn\<close> returns an error, or the commit fails, nothing of the transaction is stored and
  the error is returned; otherwise all its operations are stored together.
\<close>

definition Store_Update ::
  "(Tx \<Rightarrow> error option \<times> Tx) \<Rightarrow> txFaults \<Rightarrow> persistentStore \<Rightarrow>
   error option \<times> persistentStore" where
  "Store_Update fn faults ps =
     (case fn \<lparr>tx_ops = [], tx_opErr = opErr faults\<rparr> of
        (err, tx) \<Rightarrow>
          (case err of
             Some e \<Rightarrow> (Some e, ps\<lparr>attempted := attempted ps @ [tx_ops tx]\<rparr>)
           | None \<Rightarrow>
               (case commitErr faults of
                  Some e \<Rightarrow> (Some e, ps\<lparr>attempted := attempted ps @ [tx_ops tx]\<rparr>)
                | None \<Rightarrow>
                    (None, ps\<lparr>committed := committed ps @ [tx_ops tx],
                               attempted := attempted ps @ [tx_ops tx]\<rparr>))))"

text \<open>A transaction of \<open>n\<close> operations succeeds when none of them fails and the commit does not.\<close>

definition tx_ok :: "txFaults \<Rightarrow> nat \<Rightarrow> bool" where
  "tx_ok faults n \<longleftrightarrow> (\<forall>i<n. opErr faults i = None) \<and> commitErr faults = None"

subsection \<open>The store and its two updates\<close>

text \<open>
  The logger is the list of the messages logged so far. The table of \<open>states\<close> maps a
  key to a pointer to its resource; the pointers are addresses of a memory (below).
  \<open>refCount\<close> of \<open>store\<close> plays no part in the functions that follow.
\<close>

datatype logEntry = LogError string

type_synonym addr = nat

record states =
  mu :: bool
  table :: "string \<rightharpoonup> addr"

record store =
  log :: "logEntry list"
  persistentStore :: persistentStore
  ephemeralStore :: states

definition internal_failed_format :: string where
  "internal_failed_format =
     ''Failed to update resource management fields for '%v'' @ [CHR 0x27]"

definition cursor_failed_format :: string where
  "cursor_failed_format = ''Failed to update state in the registry for '%v'' @ [CHR 0x27]"

definition quoted :: "string \<Rightarrow> string" where
  "quoted k = [CHR 0x27] @ k @ [CHR 0x27]"

text \<open>
  \<open>store.UpdateInternal\<close> and \<open>store.UpdateCursor\<close> take a pointer to the resource and
  change the resource in place: the functions return the store and the resource as the
  call leaves them. Neither returns a value. \<open>now\<close> is what \<open>time.Now()\<close> returns.
\<close>

definition store_UpdateInternal ::
  "Time \<Rightarrow> txFaults \<Rightarrow> store \<Rightarrow> resource \<Rightarrow> store \<times> resource" where
  "store_UpdateInternal now faults s resource =
     (let data = Internal (state resource);
          data = (if IsZero (Updated data) then data\<lparr>Updated := now\<rparr> else data)
      in case Store_Update
                (\<lambda>tx. Tx_Update (key resource) (registryStateUpdateInternal data) tx)
                faults (persistentStore s) of
           (err, ps) \<Rightarrow>
             if err \<noteq> None
             then (s\<lparr>log := log s @
                          [LogError (Sprintf internal_failed_format [key resource])],
                     persistentStore := ps\<rparr>,
                   resource\<lparr>internalInSync := False\<rparr>)
             else (s\<lparr>persistentStore := ps\<rparr>,
                   resource\<lparr>stored := True, internalInSync := True\<rparr>))"

definition store_UpdateCursor ::
  "txFaults \<Rightarrow> store \<Rightarrow> resource \<Rightarrow> Time \<Rightarrow> Value \<Rightarrow> store \<times> resource" where
  "store_UpdateCursor faults s resource timestamp updates =
     (let updateCommand = registryStateUpdateCursor timestamp updates;
          k = key resource
      in case Store_Update
                (\<lambda>tx. if \<not> internalInSync resource
                       then (let internalUpdCommand =
                                   registryStateUpdateInternal (Internal (state resource))
                             in case Tx_Update k internalUpdCommand tx of
                                  (err, tx') \<Rightarrow>
                                    if err \<noteq> None then (err, tx')
                                    else Tx_Update k updateCommand tx')
                       else Tx_Update k updateCommand tx)
                faults (persistentStore s) of
           (err, ps) \<Rightarrow>
             if err \<noteq> None
             then (s\<lparr>log := log s @ [LogError (Sprintf cursor_failed_format [k])],
                     persistentStore := ps\<rparr>,
                   resource)
             else (s\<lparr>persistentStore := ps\<rparr>,
                   resource\<lparr>internalInSync := True, stored := True\<rparr>))"

subsection \<open>The table of resources\<close>

text \<open>
  The table holds pointers, and \<open>Find\<close> returns one: the resource it returns is the very
  object the table holds, and \<open>Retain\<close> changes it in place. The memory maps every address
  to the resource it holds; \<open>&resource{...}\<close> takes the next free address. A nil pointer
  is \<open>None\<close>; the table never holds one, since \<open>Find\<close> and \<open>readStates\<close> store fresh objects
  only. \<open>mu.Lock()\<close> on a mutex that is held does not return (in a run with no other
  goroutine); the deferred \<open>mu.Unlock()\<close> frees the mutex on every way out.
\<close>

record memory =
  cells :: "addr \<Rightarrow> resource"
  next_free :: addr

definition new_resource :: "string \<Rightarrow> resource" where
  "new_resource k =
     \<lparr>pending = 0, lock = False, stored = False, internalInSync = False, key = k,
      state = \<lparr>Internal = \<lparr>TTL = 0, Updated = Time 0 0\<rparr>, Cursor = VNil\<rparr>\<rparr>"

definition IsNew :: "resource \<Rightarrow> bool" where
  "IsNew e \<longleftrightarrow> Cursor (state e) = VNil"

definition resource_Retain :: "resource \<Rightarrow> resource" where
  "resource_Retain e = e\<lparr>pending := pending e + 1\<rparr>"

definition resource_Release :: "resource \<Rightarrow> resource" where
  "resource_Release e = e\<lparr>pending := pending e - 1\<rparr>"

definition Finished :: "resource \<Rightarrow> bool" where
  "Finished e \<longleftrightarrow> pending e = 0"

definition states_Find ::
  "string \<Rightarrow> bool \<Rightarrow> states \<Rightarrow> memory \<Rightarrow> (addr option \<times> states \<times> memory) option" where
  "states_Find k create s mem =
     (if mu s then None
      else
        (let s = s\<lparr>mu := True\<rparr> in
         case table s k of
           Some a \<Rightarrow>
             Some (Some a, s\<lparr>mu := False\<rparr>,
                   mem\<lparr>cells := (cells mem)(a := resource_Retain (cells mem a))\<rparr>)
         | None \<Rightarrow>
             if \<not> create then Some (None, s\<lparr>mu := False\<rparr>, mem)
             else
               (let a = next_free mem;
                    mem = \<lparr>cells = (cells mem)(a := new_resource k), next_free = a + 1\<rparr>;
                    s = s\<lparr>table := (table s)(k \<mapsto> a)\<rparr>;
                    mem = mem\<lparr>cells := (cells mem)(a := resource_Retain (cells mem a))\<rparr>
                in Some (Some a, s\<lparr>mu := False\<rparr>, mem))))"

subsection \<open>A resource, stores and fault plans to run the updates on\<close>

definition example_resource :: resource where
  "example_resource =
     \<lparr>pending = 1, lock = True, stored = False, internalInSync = False, key = ''log::f1'',
      state = \<lparr>Internal = \<lparr>TTL = 30, Updated = Time 0 0\<rparr>, Cursor = VNil\<rparr>\<rparr>"

definition empty_store :: store where
  "empty_store =
     \<lparr>log = [], persistentStore = \<lparr>committed = [], attempted = []\<rparr>,
      ephemeralStore = \<lparr>mu = False, table = Map.empty\<rparr>\<rparr>"

definition no_faults :: txFaults where
  "no_faults = \<lparr>opErr = (\<lambda>i. None), commitErr = None\<rparr>"

definition commit_fails :: txFaults where
  "commit_fails = \<lparr>opErr = (\<lambda>i. None), commitErr = Some (ErrorString ''disk full'')\<rparr>"

definition op_fails :: "nat \<Rightarrow> txFaults" where
  "op_fails i =
     \<lparr>opErr = (\<lambda>j. if j = i then Some (ErrorString ''encoding failed'') else None),
      commitErr = None\<rparr>"

definition example_states :: states where
  "example_states = \<lparr>mu = False, table = [''log::f1'' \<mapsto> 0]\<rparr>"

definition example_memory :: memory where
  "example_memory = \<lparr>cells = (\<lambda>a. example_resource), next_free = 1\<rparr>"

section \<open>The ACK handler of a managed input (input-cursor/input.go)\<close>

text \<open>
  The handler receives the number of acknowledged events and the slice of their private
  values. A private value is nil, a pointer to an \<open>updateOp\<close>, or a value of another type.
  The struct \<open>updateOp\<close> and its method \<open>Execute\<close> are declared outside the sources at
  hand: the operations are values of a type \<open>'op\<close>, and \<open>Execute\<close> is a parameter of the
  handler, a function of the operation, the count and the state \<open>'s\<close> of the program (the
  store and the resources among it). A type assertion that fails and an index out of
  range panic.
\<close>

datatype ('op, 'x) private_value = PrivNil | PrivUpdateOp 'op | PrivOther 'x

datatype 's outcome = Returned 's | Panic

text \<open>
  The loop of the handler, from index \<open>i\<close> on. \<open>n\<close> is a \<open>uint\<close>, a word of the width \<open>'w\<close>
  of the platform (32 or 64 bits), and \<open>n++\<close> wraps; \<open>i\<close> and \<open>last\<close> are indices into the
  slice. The slice \<open>private\<close> is \<open>priv\<close> and the index \<open>last\<close> is \<open>last_i\<close> here, the
  source's names being taken.
\<close>

function ack_scan ::
  "('op, 'x) private_value list \<Rightarrow> nat \<Rightarrow> 'w::len word \<Rightarrow> nat \<Rightarrow> 'w word \<times> nat" where
  "ack_scan priv i n last_i =
     (if i < length priv
      then (case priv ! i of
              PrivNil \<Rightarrow> ack_scan priv (i + 1) n last_i
            | PrivOther x \<Rightarrow> ack_scan priv (i + 1) n last_i
            | PrivUpdateOp op \<Rightarrow> ack_scan priv (i + 1) (n + 1) i)
      else (n, last_i))"
  by pat_completeness auto
termination
  by (relation "measure (\<lambda>(priv, i, n, last_i). length priv - i)") auto

definition inputACKHandler ::
  "('op \<Rightarrow> 'w::len word \<Rightarrow> 's \<Rightarrow> 's) \<Rightarrow> int \<Rightarrow> ('op, 'x) private_value list \<Rightarrow> 's \<Rightarrow> 's outcome" where
  "inputACKHandler Execute acked priv s =
     (case ack_scan priv 0 0 0 of
        (n, last_i) \<Rightarrow>
          if n = 0 then Returned s
          else if last_i < length priv
               then (case priv ! last_i of
                       PrivUpdateOp op \<Rightarrow> Returned (Execute op n s)
                     | PrivNil \<Rightarrow> Panic
                     | PrivOther x \<Rightarrow> Panic)
               else Panic)"

text \<open>
  In the words of the specification: the update operations among the private values, in
  the order of the slice.
\<close>

fun update_ops :: "('op, 'x) private_value list \<Rightarrow> 'op list" where
  "update_ops [] = []"
| "update_ops (PrivUpdateOp op # rest) = op # update_ops rest"
| "update_ops (PrivNil # rest) = update_ops rest"
| "update_ops (PrivOther x # rest) = update_ops rest"

text \<open>
  A batch to run the handler on, with operations that carry a timestamp and a cursor, and
  an \<open>Execute\<close> for them that calls \<open>store.UpdateCursor\<close>.
\<close>

definition example_batch :: "(Time \<times> Value, string) private_value list" where
  "example_batch =
     [PrivUpdateOp (Time 1 0, VInt 10), PrivNil, PrivUpdateOp (Time 2 0, VInt 20),
      PrivOther ''foreign'', PrivUpdateOp (Time 3 0, VInt 30), PrivNil]"

definition persist_cursor ::
  "Time \<times> Value \<Rightarrow> 64 word \<Rightarrow> store \<times> resource \<Rightarrow> store \<times> resource" where
  "persist_cursor op n sr = store_UpdateCursor no_faults (fst sr) (snd sr) (fst op) (snd op)"

section \<open>Properties\<close>

subsection \<open>Resource keys\<close>

lemma Sprintf_three:
  "Sprintf ''%v::%v::%v'' [a, b, c] = a @ ''::'' @ b @ ''::'' @ c"
  by simp

lemma Sprintf_two:
  "Sprintf ''%v::%v'' [a, c] = a @ ''::'' @ c"
  by simp

text \<open>
  C9. The key computed by \<open>createSourceID\<close> is the input type, \<open>::\<close>, the user ID, \<open>::\<close>
  and the source name when the user ID is not empty, and the input type, \<open>::\<close> and the
  source name when it is empty. Every component is copied as it is: nothing is escaped.
\<close>

theorem createSourceID_key:
  "(userID inp \<noteq> '''' \<longrightarrow>
      createSourceID inp s =
        Manager_Type (manager inp) @ ''::'' @ userID inp @ ''::'' @ Source_Name s) \<and>
   (userID inp = '''' \<longrightarrow>
      createSourceID inp s = Manager_Type (manager inp) @ ''::'' @ Source_Name s)"
  by (simp add: createSourceID_def Sprintf_three Sprintf_two del: Sprintf.simps)

theorem createSourceID_key_witness:
  "createSourceID \<lparr>manager = \<lparr>Manager_Type = ''log''\<rparr>, userID = ''u1'', sources = []\<rparr>
       \<lparr>Source_Name = ''f::1''\<rparr> = ''log::u1::f::1'' \<and>
   createSourceID \<lparr>manager = \<lparr>Manager_Type = ''log''\<rparr>, userID = '''', sources = []\<rparr>
       \<lparr>Source_Name = ''f1''\<rparr> = ''log::f1''"
  using createSourceID_key
          [of "\<lparr>manager = \<lparr>Manager_Type = ''log''\<rparr>, userID = ''u1'', sources = []\<rparr>"
              "\<lparr>Source_Name = ''f::1''\<rparr>"]
        createSourceID_key
          [of "\<lparr>manager = \<lparr>Manager_Type = ''log''\<rparr>, userID = '''', sources = []\<rparr>"
              "\<lparr>Source_Name = ''f1''\<rparr>"]
  by simp

subsection \<open>The composed runner factory\<close>

text \<open>
  C1, as the claim states it, fails: when the primary factory rejects a configuration of
  an input type it knows and the fallback accepts it, \<open>Create\<close> returns the fallback's
  runner and no error, not the primary's error.
\<close>

theorem composeFactory_Create_counterexample:
  "Create (factory (Combine (failing ''primary'' (ErrorString ''invalid setting''))
                            (accepting ''fallback''))) () () () [] =
     ((None, Some (ErrorString ''invalid setting'')), [''primary'']) \<and>
   \<not> IsUnknownInputError (Some (ErrorString ''invalid setting'')) \<and>
   composeFactory_Create
       (Combine (failing ''primary'' (ErrorString ''invalid setting'')) (accepting ''fallback''))
       () () () [] =
     ((Some ''fallback'', None), [''primary'', ''fallback'']) \<and>
   snd (fst (composeFactory_Create
       (Combine (failing ''primary'' (ErrorString ''invalid setting'')) (accepting ''fallback''))
       () () () [])) \<noteq> Some (ErrorString ''invalid setting'')"
  by (simp add: composeFactory_Create_def Combine_def failing_def accepting_def
        IsUnknownInputError_def sderr_Is_def)

text \<open>
  C1, amended. Let the primary's \<open>Create\<close> return the runner \<open>r1\<close> and the error \<open>e1\<close>, and
  let the fallback's \<open>Create\<close>, run after it, return \<open>r2\<close> and \<open>e2\<close>. When the primary
  succeeds, the composed \<open>Create\<close> returns the primary's runner and the fallback is not
  run. When the primary fails with an unknown-input error, it returns what the fallback
  returns: the fallback's runner on success, the fallback's error (and no runner) on
  failure. When the primary fails with any other error, the fallback is tried all the
  same: its runner is returned when it succeeds, and the primary's error only when the
  fallback fails too.
\<close>

theorem composeFactory_Create_fallback:
  assumes "Create (factory f) p config meta w = ((r1, e1), w1)"
      and "Create (fallback f) p config meta w1 = ((r2, e2), w2)"
  shows "(e1 = None \<longrightarrow> composeFactory_Create f p config meta w = ((r1, None), w1)) \<and>
         (IsUnknownInputError e1 \<longrightarrow>
            composeFactory_Create f p config meta w =
              ((if e2 = None then r2 else None, e2), w2)) \<and>
         (e1 \<noteq> None \<and> \<not> IsUnknownInputError e1 \<and> e2 = None \<longrightarrow>
            composeFactory_Create f p config meta w = ((r2, None), w2)) \<and>
         (e1 \<noteq> None \<and> \<not> IsUnknownInputError e1 \<and> e2 \<noteq> None \<longrightarrow>
            composeFactory_Create f p config meta w = ((None, e1), w2))"
  using assms
  by (auto simp add: composeFactory_Create_def IsUnknownInputError_def sderr_Is_def)

theorem composeFactory_Create_fallback_witness:
  "composeFactory_Create (Combine (accepting ''primary'') (accepting ''fallback'')) () () () [] =
     ((Some ''primary'', None), [''primary'']) \<and>
   IsUnknownInputError (Some (LoaderErrorPtr None ''legacy'' (Some ErrUnknown) [])) \<and>
   composeFactory_Create
       (Combine (failing ''primary'' (LoaderErrorPtr None ''legacy'' (Some ErrUnknown) []))
                (failing ''fallback'' (ErrorString ''no such file'')))
       () () () [] =
     ((None, Some (ErrorString ''no such file'')), [''primary'', ''fallback'']) \<and>
   composeFactory_Create
       (Combine (failing ''primary'' (ErrorString ''invalid setting'')) (accepting ''fallback''))
       () () () [] =
     ((Some ''fallback'', None), [''primary'', ''fallback'']) \<and>
   composeFactory_Create
       (Combine (failing ''primary'' (ErrorString ''invalid setting''))
                (failing ''fallback'' (ErrorString ''no such file'')))
       () () () [] =
     ((None, Some (ErrorString ''invalid setting'')), [''primary'', ''fallback''])"
  using composeFactory_Create_fallback
          [of "Combine (accepting ''primary'') (accepting ''fallback'')" "()" "()" "()" "[]"
              "Some ''primary''" None "[''primary'']"
              "Some ''fallback''" None "[''primary'', ''fallback'']"]
        composeFactory_Create_fallback
          [of "Combine (failing ''primary'' (LoaderErrorPtr None ''legacy'' (Some ErrUnknown) []))
                       (failing ''fallback'' (ErrorString ''no such file''))" "()" "()" "()" "[]"
              None "Some (LoaderErrorPtr None ''legacy'' (Some ErrUnknown) [])" "[''primary'']"
              None "Some (ErrorString ''no such file'')" "[''primary'', ''fallback'']"]
        composeFactory_Create_fallback
          [of "Combine (failing ''primary'' (ErrorString ''invalid setting''))
                       (accepting ''fallback'')" "()" "()" "()" "[]"
              None "Some (ErrorString ''invalid setting'')" "[''primary'']"
              "Some ''fallback''" None "[''primary'', ''fallback'']"]
        composeFactory_Create_fallback
          [of "Combine (failing ''primary'' (ErrorString ''invalid setting''))
                       (failing ''fallback'' (ErrorString ''no such file''))" "()" "()" "()" "[]"
              None "Some (ErrorString ''invalid setting'')" "[''primary'']"
              None "Some (ErrorString ''no such file'')" "[''primary'', ''fallback'']"]
  by (simp add: Combine_def failing_def accepting_def IsUnknownInputError_def sderr_Is_def)

text \<open>
  C4, as the claim states it, fails: when the primary's \<open>CheckConfig\<close> fails with an error
  that is not an unknown-input error, the fallback's \<open>CheckConfig\<close> is consulted all the
  same, and when it accepts the configuration the composed \<open>CheckConfig\<close> returns no
  error instead of the primary's.
\<close>

theorem composeFactory_CheckConfig_counterexample:
  "CheckConfig (factory (Combine (failing ''primary'' (ErrorString ''invalid setting''))
                                 (accepting ''fallback''))) () [] =
     (Some (ErrorString ''invalid setting''), [''primary'']) \<and>
   \<not> IsUnknownInputError (Some (ErrorString ''invalid setting'')) \<and>
   composeFactory_CheckConfig
       (Combine (failing ''primary'' (ErrorString ''invalid setting'')) (accepting ''fallback''))
       () [] =
     (None, [''primary'', ''fallback''])"
  by (simp add: composeFactory_CheckConfig_def Combine_def failing_def accepting_def
        IsUnknownInputError_def sderr_Is_def)

text \<open>
  C4, amended. Let the primary's \<open>CheckConfig\<close> return \<open>e1\<close> and the fallback's, run after
  it, \<open>e2\<close>. When the primary accepts, the composed \<open>CheckConfig\<close> returns no error and
  the fallback is not consulted. The fallback is consulted whenever the primary fails,
  whatever the error. When the primary fails with an unknown-input error, the result is the
  fallback's result; when the primary fails with any other error and the fallback
  accepts, the result is no error.
\<close>

theorem composeFactory_CheckConfig_fallback:
  assumes "CheckConfig (factory f) cfg w = (e1, w1)"
      and "CheckConfig (fallback f) cfg w1 = (e2, w2)"
  shows "(e1 = None \<longrightarrow> composeFactory_CheckConfig f cfg w = (None, w1)) \<and>
         (e1 \<noteq> None \<longrightarrow> snd (composeFactory_CheckConfig f cfg w) = w2) \<and>
         (IsUnknownInputError e1 \<longrightarrow> composeFactory_CheckConfig f cfg w = (e2, w2)) \<and>
         (e1 \<noteq> None \<and> e2 = None \<longrightarrow> composeFactory_CheckConfig f cfg w = (None, w2))"
  using assms
  by (auto simp add: composeFactory_CheckConfig_def IsUnknownInputError_def sderr_Is_def)

theorem composeFactory_CheckConfig_fallback_witness:
  "composeFactory_CheckConfig (Combine (accepting ''primary'') (accepting ''fallback'')) () [] =
     (None, [''primary'']) \<and>
   IsUnknownInputError (Some (LoaderErrorPtr None ''legacy'' (Some ErrUnknown) [])) \<and>
   composeFactory_CheckConfig
       (Combine (failing ''primary'' (LoaderErrorPtr None ''legacy'' (Some ErrUnknown) []))
                (failing ''fallback'' (ErrorString ''no such file'')))
       () [] =
     (Some (ErrorString ''no such file''), [''primary'', ''fallback'']) \<and>
   composeFactory_CheckConfig
       (Combine (failing ''primary'' (ErrorString ''invalid setting'')) (accepting ''fallback''))
       () [] =
     (None, [''primary'', ''fallback''])"
  using composeFactory_CheckConfig_fallback
          [of "Combine (accepting ''primary'') (accepting ''fallback'')" "()" "[]"
              None "[''primary'']" None "[''primary'', ''fallback'']"]
        composeFactory_CheckConfig_fallback
          [of "Combine (failing ''primary'' (LoaderErrorPtr None ''legacy'' (Some ErrUnknown) []))
                       (failing ''fallback'' (ErrorString ''no such file''))" "()" "[]"
              "Some (LoaderErrorPtr None ''legacy'' (Some ErrUnknown) [])" "[''primary'']"
              "Some (ErrorString ''no such file'')" "[''primary'', ''fallback'']"]
        composeFactory_CheckConfig_fallback
          [of "Combine (failing ''primary'' (ErrorString ''invalid setting''))
                       (accepting ''fallback'')" "()" "[]"
              "Some (ErrorString ''invalid setting'')" "[''primary'']"
              None "[''primary'', ''fallback'']"]
  by (simp add: Combine_def failing_def accepting_def IsUnknownInputError_def sderr_Is_def)

subsection \<open>The plugin registry\<close>

lemma range_plugins_append:
  "range_plugins fn (xs @ ys) s =
     (case range_plugins fn xs s of
        (vs, c, s') \<Rightarrow>
          if \<not> c then (vs, False, s')
          else (case range_plugins fn ys s' of (ws, c', s'') \<Rightarrow> (vs @ ws, c', s'')))"
  by (induction xs arbitrary: s) (auto split: prod.splits)

lemma map_range_exists:
  assumes "finite (dom m)"
  shows "\<exists>kvs. map_range m kvs"
proof -
  obtain ks where ks: "set ks = dom m" "distinct ks"
    using finite_distinct_list[OF assms] by blast
  let ?kvs = "map (\<lambda>k. (k, the (m k))) ks"
  have "map fst ?kvs = ks" by (simp add: comp_def)
  moreover have "map_of ?kvs = m" using ks(1) by (rule map_of_map_keys)
  ultimately show ?thesis using ks(2) unfolding map_range_def by metis
qed

lemma blocks_exist:
  "\<forall>m \<in> set ms. finite (dom m) \<Longrightarrow> \<exists>blocks. list_all2 map_range ms blocks"
proof (induction ms)
  case Nil
  then show ?case by simp
next
  case (Cons m ms)
  then obtain blocks where "list_all2 map_range ms blocks" by auto
  moreover obtain kvs where "map_range m kvs" using Cons.prems map_range_exists by auto
  ultimately have "list_all2 map_range (m # ms) (kvs # blocks)" by simp
  then show ?case by blast
qed


lemma lookup_order_unfold:
  "lookup_order r = plugins r # concat (map lookup_order (subs r))"
  by (cases r) simp

lemma each_in_subs_of_blocks:
  assumes IH: "\<And>sub s blocks. sub \<in> set ss \<Longrightarrow> list_all2 map_range (lookup_order sub) blocks \<Longrightarrow>
                 Registry_each sub fn s (range_plugins fn (map snd (concat blocks)) s)"
      and "list_all2 map_range (concat (map lookup_order ss)) blocks"
  shows "each_in_subs ss fn s (range_plugins fn (map snd (concat blocks)) s)"
  using assms
proof (induction ss arbitrary: s blocks)
  case Nil
  then show ?case by (simp add: subs_done)
next
  case (Cons sub rest)
  from Cons.prems(2) obtain b1 b2 where
    blocks: "blocks = b1 @ b2" and
    b1: "list_all2 map_range (lookup_order sub) b1" and
    b2: "list_all2 map_range (concat (map lookup_order rest)) b2"
    by (auto simp add: list_all2_append1)
  have sub: "Registry_each sub fn s (range_plugins fn (map snd (concat b1)) s)"
    using Cons.prems(1)[of sub b1 s] b1 by simp
  obtain vs c s' where r1: "range_plugins fn (map snd (concat b1)) s = (vs, c, s')"
    by (cases "range_plugins fn (map snd (concat b1)) s") auto
  show ?case
  proof (cases c)
    case False
    with r1 sub have "each_in_subs (sub # rest) fn s (vs, False, s')"
      by (auto intro: subs_stop)
    with r1 False show ?thesis
      by (simp add: blocks range_plugins_append)
  next
    case True
    have rest: "each_in_subs rest fn s' (range_plugins fn (map snd (concat b2)) s')"
      using Cons.IH[of b2 s'] Cons.prems(1) b2 by simp
    obtain ws c' s'' where r2: "range_plugins fn (map snd (concat b2)) s' = (ws, c', s'')"
      by (cases "range_plugins fn (map snd (concat b2)) s'") auto
    from sub r1 True rest r2 have "each_in_subs (sub # rest) fn s (vs @ ws, c', s'')"
      by (auto intro: subs_next)
    with r1 r2 True show ?thesis
      by (simp add: blocks range_plugins_append)
  qed
qed

lemma each_of_blocks:
  "list_all2 map_range (lookup_order r) blocks \<Longrightarrow>
   Registry_each r fn s (range_plugins fn (map snd (concat blocks)) s)"
proof (induction r arbitrary: s blocks)
  case (Registry ps ss)
  from Registry.prems obtain b bs where
    blocks: "blocks = b # bs" and b: "map_range ps b" and
    bs: "list_all2 map_range (concat (map lookup_order ss)) bs"
    by (auto simp add: list_all2_Cons1)
  have subs: "each_in_subs ss fn s' (range_plugins fn (map snd (concat bs)) s')" for s'
    using Registry.IH bs by (rule each_in_subs_of_blocks)
  obtain vs c s' where r1: "range_plugins fn (map snd b) s = (vs, c, s')"
    by (cases "range_plugins fn (map snd b) s") auto
  show ?case
  proof (cases c)
    case False
    with r1 b have "Registry_each (Registry ps ss) fn s (vs, False, s')"
      by (auto intro: each_stop)
    with r1 False show ?thesis
      by (simp add: blocks range_plugins_append)
  next
    case True
    obtain ws c' s'' where r2: "range_plugins fn (map snd (concat bs)) s' = (ws, c', s'')"
      by (cases "range_plugins fn (map snd (concat bs)) s'") auto
    have "Registry_each (Registry ps ss) fn s (vs @ ws, c', s'')"
      using b r1 True subs[of s'] r2 by (auto intro: each_subs)
    with r1 r2 True show ?thesis
      by (simp add: blocks range_plugins_append)
  qed
qed

lemma finite_registry_subs:
  "finite_registry r \<Longrightarrow> \<forall>m \<in> set (concat (map lookup_order (subs r))). finite (dom m)"
  by (cases r) (auto simp add: finite_registry_def)

lemma finite_registry_plugins: "finite_registry r \<Longrightarrow> finite (dom (plugins r))"
  by (cases r) (auto simp add: finite_registry_def)

lemma blocks_of_each:
  "Registry_each r fn s out \<Longrightarrow>
     finite_registry r \<longrightarrow>
     (\<exists>blocks. list_all2 map_range (lookup_order r) blocks \<and>
               out = range_plugins fn (map snd (concat blocks)) s)"
  "each_in_subs ss fn s out \<Longrightarrow>
     (\<forall>m \<in> set (concat (map lookup_order ss)). finite (dom m)) \<longrightarrow>
     (\<exists>blocks. list_all2 map_range (concat (map lookup_order ss)) blocks \<and>
               out = range_plugins fn (map snd (concat blocks)) s)"
proof (induction rule: Registry_each_each_in_subs.inducts)
  case (each_stop r kvs fn s vs s')
  show ?case
  proof
    assume fin: "finite_registry r"
    obtain bs where bs: "list_all2 map_range (concat (map lookup_order (subs r))) bs"
      using blocks_exist[OF finite_registry_subs[OF fin]] by blast
    have "list_all2 map_range (lookup_order r) (kvs # bs)"
      using each_stop.hyps(1) bs by (subst lookup_order_unfold) simp
    moreover have "(vs, False, s') = range_plugins fn (map snd (concat (kvs # bs))) s"
      using each_stop.hyps(2) by (simp add: range_plugins_append)
    ultimately show "\<exists>blocks. list_all2 map_range (lookup_order r) blocks \<and>
               (vs, False, s') = range_plugins fn (map snd (concat blocks)) s"
      by blast
  qed
next
  case (each_subs r kvs fn s vs s' ws c s'')
  show ?case
  proof
    assume fin: "finite_registry r"
    obtain bs where bs: "list_all2 map_range (concat (map lookup_order (subs r))) bs"
      and out: "(ws, c, s'') = range_plugins fn (map snd (concat bs)) s'"
      using each_subs.IH finite_registry_subs[OF fin] by blast
    have "list_all2 map_range (lookup_order r) (kvs # bs)"
      using each_subs.hyps(1) bs by (subst lookup_order_unfold) simp
    moreover have "(vs @ ws, c, s'') = range_plugins fn (map snd (concat (kvs # bs))) s"
      using each_subs.hyps(2) out[symmetric] by (simp add: range_plugins_append)
    ultimately show "\<exists>blocks. list_all2 map_range (lookup_order r) blocks \<and>
               (vs @ ws, c, s'') = range_plugins fn (map snd (concat blocks)) s"
      by blast
  qed
next
  case (subs_done fn s)
  show ?case by simp
next
  case (subs_stop sub fn s vs s' rest)
  show ?case
  proof
    assume fin: "\<forall>m \<in> set (concat (map lookup_order (sub # rest))). finite (dom m)"
    then have "finite_registry sub" by (simp add: finite_registry_def)
    with subs_stop.IH obtain b1 where b1: "list_all2 map_range (lookup_order sub) b1"
      and out: "(vs, False, s') = range_plugins fn (map snd (concat b1)) s"
      by blast
    obtain b2 where b2: "list_all2 map_range (concat (map lookup_order rest)) b2"
      using blocks_exist[of "concat (map lookup_order rest)"] fin by auto
    have "list_all2 map_range (concat (map lookup_order (sub # rest))) (b1 @ b2)"
      using b1 b2 by (simp add: list_all2_appendI)
    moreover have "(vs, False, s') = range_plugins fn (map snd (concat (b1 @ b2))) s"
      using out[symmetric] by (simp add: range_plugins_append)
    ultimately show "\<exists>blocks. list_all2 map_range (concat (map lookup_order (sub # rest))) blocks \<and>
               (vs, False, s') = range_plugins fn (map snd (concat blocks)) s"
      by blast
  qed
next
  case (subs_next sub fn s vs s' rest ws c s'')
  show ?case
  proof
    assume fin: "\<forall>m \<in> set (concat (map lookup_order (sub # rest))). finite (dom m)"
    then have "finite_registry sub" by (simp add: finite_registry_def)
    with subs_next.IH(1) obtain b1 where b1: "list_all2 map_range (lookup_order sub) b1"
      and out1: "(vs, True, s') = range_plugins fn (map snd (concat b1)) s"
      by blast
    obtain b2 where b2: "list_all2 map_range (concat (map lookup_order rest)) b2"
      and out2: "(ws, c, s'') = range_plugins fn (map snd (concat b2)) s'"
      using subs_next.IH(2) fin by auto
    have "list_all2 map_range (concat (map lookup_order (sub # rest))) (b1 @ b2)"
      using b1 b2 by (simp add: list_all2_appendI)
    moreover have "(vs @ ws, c, s'') = range_plugins fn (map snd (concat (b1 @ b2))) s"
      using out1[symmetric] out2[symmetric] by (simp add: range_plugins_append)
    ultimately show "\<exists>blocks. list_all2 map_range (concat (map lookup_order (sub # rest))) blocks \<and>
               (vs @ ws, c, s'') = range_plugins fn (map snd (concat blocks)) s"
      by blast
  qed
qed

lemma first_match_append:
  "first_match (xs @ ys) name =
     (case first_match xs name of Some p \<Rightarrow> Some p | None \<Rightarrow> first_match ys name)"
  by (induction xs) (auto split: option.splits)

lemma find_in_subs_first_match:
  assumes "\<And>sub. sub \<in> set ss \<Longrightarrow>
             Registry_find sub name =
               (case first_match (lookup_order sub) name of
                  Some p \<Rightarrow> (p, True) | None \<Rightarrow> (Plugin_zero, False))"
  shows "find_in_subs ss name =
           (case first_match (concat (map lookup_order ss)) name of
              Some p \<Rightarrow> (p, True) | None \<Rightarrow> (Plugin_zero, False))"
  using assms
  by (induction ss) (auto simp add: first_match_append split: option.splits)

lemma Registry_find_is_first_match:
  "Registry_find r name =
     (case first_match (lookup_order r) name of
        Some p \<Rightarrow> (p, True) | None \<Rightarrow> (Plugin_zero, False))"
proof (induction r)
  case (Registry ps ss)
  then have "find_in_subs ss name =
           (case first_match (concat (map lookup_order ss)) name of
              Some p \<Rightarrow> (p, True) | None \<Rightarrow> (Plugin_zero, False))"
    by (rule find_in_subs_first_match)
  then show ?case by (simp split: option.splits)
qed

lemma first_match_None: "first_match ms name = None \<longleftrightarrow> (\<forall>m \<in> set ms. m name = None)"
  by (induction ms) (auto split: option.splits)

lemma first_match_Some:
  "(\<forall>m' \<in> set pre. m' name = None) \<Longrightarrow> m name = Some p \<Longrightarrow>
   first_match (pre @ m # post) name = Some p"
  by (induction pre) auto

lemma first_match_in:
  "first_match ms name = Some p \<Longrightarrow> \<exists>m \<in> set ms. m name = Some p"
  by (induction ms) (auto split: option.splits)

lemma IsUnknown_LoaderError:
  "IsUnknownInputError (Some (LoaderErrorPtr d name (Some ErrUnknown) msg))"
  by (simp add: IsUnknownInputError_def sderr_Is_def)

lemma lookup_order_addToRegistry:
  "lookup_order (Registry_addToRegistry c parent) = lookup_order parent @ lookup_order c"
  by (cases parent) (simp add: Registry_addToRegistry_def)

text \<open>
  C7. \<open>Registry.Find\<close> searches the registry's own plugins first and then the children,
  recursively and in the order they were added (\<open>lookup_order\<close>; a registry that is added
  is searched after all that was there before): it returns the plugin stored under the
  name in the first map of that order that has the name, and no error. When no map of the
  tree has the name, it returns the zero plugin and a \<open>LoaderError\<close> with the name asked
  for and the reason \<open>ErrUnknown\<close>, for which \<open>IsUnknownInputError\<close> holds. In a registry
  whose plugins are stored under their names, the plugin found has the name asked for.
\<close>

theorem Registry_Find_first_match:
  "(\<forall>pre m post p.
      lookup_order r = pre @ m # post \<and> (\<forall>m' \<in> set pre. m' name = None) \<and> m name = Some p \<longrightarrow>
      Registry_Find r name = (p, None)) \<and>
   ((\<forall>m \<in> set (lookup_order r). m name = None) \<longrightarrow>
      Registry_Find r name = (Plugin_zero, Some (LoaderErrorPtr None name (Some ErrUnknown) [])) \<and>
      IsUnknownInputError (snd (Registry_Find r name))) \<and>
   (\<forall>p. keyed_by_name r \<and> Registry_Find r name = (p, None) \<longrightarrow> Plugin_Name p = name) \<and>
   lookup_order r = plugins r # concat (map lookup_order (subs r)) \<and>
   lookup_order (Registry_addToRegistry c r) = lookup_order r @ lookup_order c"
proof (intro conjI allI impI)
  fix pre m post p
  assume "lookup_order r = pre @ m # post \<and> (\<forall>m' \<in> set pre. m' name = None) \<and> m name = Some p"
  then have "first_match (lookup_order r) name = Some p"
    by (simp add: first_match_Some)
  then show "Registry_Find r name = (p, None)"
    by (simp add: Registry_Find_def Registry_find_is_first_match)
next
  assume "\<forall>m \<in> set (lookup_order r). m name = None"
  then have "first_match (lookup_order r) name = None"
    by (simp add: first_match_None)
  then show miss: "Registry_Find r name = (Plugin_zero, Some (LoaderErrorPtr None name (Some ErrUnknown) []))"
    by (simp add: Registry_Find_def Registry_find_is_first_match)
  then show "IsUnknownInputError (snd (Registry_Find r name))"
    by (simp add: IsUnknown_LoaderError)
next
  fix p
  assume a: "keyed_by_name r \<and> Registry_Find r name = (p, None)"
  then have "first_match (lookup_order r) name = Some p"
    by (auto simp add: Registry_Find_def Registry_find_is_first_match split: option.splits)
  then obtain m where "m \<in> set (lookup_order r)" "m name = Some p"
    using first_match_in by blast
  with a show "Plugin_Name p = name" by (auto simp add: keyed_by_name_def)
next
  show "lookup_order r = plugins r # concat (map lookup_order (subs r))"
    by (rule lookup_order_unfold)
next
  show "lookup_order (Registry_addToRegistry c r) = lookup_order r @ lookup_order c"
    by (rule lookup_order_addToRegistry)
qed

theorem Registry_Find_first_match_witness:
  "Registry_Find example_registry ''b'' = (plugin ''b'' ''first child'', None) \<and>
   Registry_Find example_registry ''zzz'' =
     (Plugin_zero, Some (LoaderErrorPtr None ''zzz'' (Some ErrUnknown) [])) \<and>
   IsUnknownInputError (snd (Registry_Find example_registry ''zzz'')) \<and>
   keyed_by_name example_registry \<and>
   Plugin_Name (fst (Registry_Find example_registry ''b'')) = ''b''"
proof -
  note hit = Registry_Find_first_match[of example_registry "''b''" example_registry]
  note miss = Registry_Find_first_match[of example_registry "''zzz''" example_registry]
  have order: "lookup_order example_registry =
      [[''a'' \<mapsto> plugin ''a'' ''root'']] @ [''b'' \<mapsto> plugin ''b'' ''first child''] #
      [[''b'' \<mapsto> plugin ''b'' ''second child'', ''c'' \<mapsto> plugin ''c'' ''second child'']]"
    by (simp add: example_registry_def)
  have b: "Registry_Find example_registry ''b'' = (plugin ''b'' ''first child'', None)"
    using hit[THEN conjunct1, rule_format,
              of "[[''a'' \<mapsto> plugin ''a'' ''root'']]" "[''b'' \<mapsto> plugin ''b'' ''first child'']"
                 "[[''b'' \<mapsto> plugin ''b'' ''second child'', ''c'' \<mapsto> plugin ''c'' ''second child'']]"
                 "plugin ''b'' ''first child''"]
          order
    by simp
  have none: "\<forall>m \<in> set (lookup_order example_registry). m ''zzz'' = None"
    by (simp add: example_registry_def)
  have z: "Registry_Find example_registry ''zzz'' =
     (Plugin_zero, Some (LoaderErrorPtr None ''zzz'' (Some ErrUnknown) [])) \<and>
     IsUnknownInputError (snd (Registry_Find example_registry ''zzz''))"
    using miss none by blast
  have k: "keyed_by_name example_registry"
    by (simp add: example_registry_def keyed_by_name_def plugin_def)
  have "Plugin_Name (fst (Registry_Find example_registry ''b'')) = ''b''"
    using hit k b by auto
  with b z k show ?thesis by blast
qed

lemma map_of_blocks_first_match:
  "list_all2 map_range ms blocks \<Longrightarrow> map_of (concat blocks) name = first_match ms name"
proof (induction rule: list_all2_induct)
  case Nil
  then show ?case by simp
next
  case (Cons m ms b blocks)
  then show ?case
    by (auto simp add: map_range_def map_add_def split: option.splits)
qed

lemma map_range_length: "map_range m kvs \<Longrightarrow> length kvs = card (dom m)"
proof -
  assume a: "map_range m kvs"
  then have "m = map_of kvs" by (simp add: map_range_def)
  then have "dom m = set (map fst kvs)"
    by (simp add: dom_map_of_conv_image_fst)
  moreover have "distinct (map fst kvs)" using a by (simp add: map_range_def)
  ultimately have "card (dom m) = length (map fst kvs)"
    using distinct_card[of "map fst kvs"] by simp
  then show ?thesis by simp
qed

lemma map_range_unique:
  assumes "card (dom m) \<le> 1" and "map_range m kvs" and "map_range m kvs'"
  shows "kvs = kvs'"
proof -
  have l: "length kvs = card (dom m)" "length kvs' = card (dom m)"
    using assms map_range_length by auto
  show ?thesis
  proof (cases kvs)
    case Nil
    with l show ?thesis by simp
  next
    case (Cons kv rest)
    with l assms(1) have rest: "rest = []" by (cases rest) simp_all
    from Cons l obtain kv' rest' where c': "kvs' = kv' # rest'" by (cases kvs') auto
    with l assms(1) have rest': "rest' = []" by (cases rest') simp_all
    have "map_of kvs = map_of kvs'" using assms by (simp add: map_range_def)
    then have "[fst kv \<mapsto> snd kv] = [fst kv' \<mapsto> snd kv']"
      using Cons rest c' rest' by simp
    then have "[fst kv \<mapsto> snd kv] (fst kv) = [fst kv' \<mapsto> snd kv'] (fst kv)"
      by (rule arg_cong)
    then have "fst kv = fst kv' \<and> snd kv = snd kv'"
      by (simp split: if_splits)
    then show ?thesis using Cons rest c' rest' by (simp add: prod_eq_iff)
  qed
qed

lemma blocks_unique:
  "list_all2 map_range ms blocks \<Longrightarrow> list_all2 map_range ms blocks' \<Longrightarrow>
   \<forall>m \<in> set ms. card (dom m) \<le> 1 \<Longrightarrow> blocks = blocks'"
proof (induction arbitrary: blocks' rule: list_all2_induct)
  case Nil
  then show ?case by simp
next
  case (Cons m ms b blocks)
  from Cons.prems(1) obtain b' bs' where b': "blocks' = b' # bs'" "map_range m b'"
     "list_all2 map_range ms bs'"
    by (auto simp add: list_all2_Cons1)
  have "b = b'" using map_range_unique[of m b b'] Cons.hyps(1) b'(2) Cons.prems(2) by simp
  moreover have "blocks = bs'" using Cons.IH[OF b'(3)] Cons.prems(2) by simp
  ultimately show ?case using b'(1) by simp
qed

lemma map_range_one: "map_range [k \<mapsto> p] [(k, p)]"
  by (simp add: map_range_def)

lemma map_range_two: "k \<noteq> k' \<Longrightarrow> map_range [k \<mapsto> p, k' \<mapsto> p'] [(k, p), (k', p')]"
  by (auto simp add: map_range_def fun_eq_iff)

lemma map_range_two_swapped:
  "k \<noteq> k' \<Longrightarrow> map_range [k \<mapsto> p, k' \<mapsto> p'] [(k', p'), (k, p)]"
  by (auto simp add: map_range_def fun_eq_iff)

text \<open>
  C8, as the claim states it, fails: the direct plugins of a registry are walked by a
  \<open>range\<close> over a Go map. On a registry with the two direct plugins \<open>a\<close> and \<open>b\<close>, one
  run of \<open>Each\<close> may visit \<open>a\<close> then \<open>b\<close> and another run, on the same registry with the
  same callback, \<open>b\<close> then \<open>a\<close>.
\<close>

theorem Registry_Each_counterexample:
  "Registry_Each flat_registry visit_all ()
     ([plugin ''a'' ''x'', plugin ''b'' ''y''], ()) \<and>
   Registry_Each flat_registry visit_all ()
     ([plugin ''b'' ''y'', plugin ''a'' ''x''], ()) \<and>
   [plugin ''a'' ''x'', plugin ''b'' ''y''] \<noteq> [plugin ''b'' ''y'', plugin ''a'' ''x'']"
proof -
  have ab: "Registry_each flat_registry visit_all ()
     ([plugin ''a'' ''x'', plugin ''b'' ''y''], True, ())"
    using each_of_blocks[of flat_registry "[[(''a'', plugin ''a'' ''x''), (''b'', plugin ''b'' ''y'')]]"
            visit_all "()"]
    by (simp add: flat_registry_def map_range_two visit_all_def)
  have ba: "Registry_each flat_registry visit_all ()
     ([plugin ''b'' ''y'', plugin ''a'' ''x''], True, ())"
    using each_of_blocks[of flat_registry "[[(''b'', plugin ''b'' ''y''), (''a'', plugin ''a'' ''x'')]]"
            visit_all "()"]
    by (simp add: flat_registry_def map_range_two_swapped visit_all_def)
  have "plugin ''a'' ''x'' \<noteq> plugin ''b'' ''y''" by (simp add: plugin_def)
  with ab ba show ?thesis unfolding Registry_Each_def by auto
qed

text \<open>
  C8, amended. On a registry tree (of finite maps), the outcomes of \<open>each\<close> are the
  outcomes of calling the callback along a visit order, up to the first call that returns
  false: a visit order lists the registry's direct plugins first, then the plugins of the
  children in the order the children were added, recursively, with the direct plugins of
  one registry in any order. There is always such an outcome. \<open>Find\<close> uses the same
  order: it returns the first entry of any visit order stored under the name. Two runs of
  \<open>each\<close> on the same registry from the same state have the same outcome when no
  registry of the tree has more than one direct plugin. \<open>Each\<close> visits what \<open>each\<close>
  visits and drops the value it returns.
\<close>

theorem Registry_each_visit_order:
  assumes "finite_registry r"
  shows "(Registry_each r fn s out \<longleftrightarrow>
            (\<exists>kvs. visit_order r kvs \<and> out = range_plugins fn (map snd kvs) s)) \<and>
         (\<exists>kvs. visit_order r kvs) \<and>
         (\<forall>kvs name. visit_order r kvs \<longrightarrow>
            Registry_find r name =
              (case map_of kvs name of Some p \<Rightarrow> (p, True) | None \<Rightarrow> (Plugin_zero, False))) \<and>
         ((\<forall>m \<in> set (lookup_order r). card (dom m) \<le> 1) \<longrightarrow>
            (\<forall>out'. Registry_each r fn s out \<and> Registry_each r fn s out' \<longrightarrow> out = out')) \<and>
         (Registry_Each r fn s (vs, s') \<longleftrightarrow>
            (\<exists>kvs c. visit_order r kvs \<and> range_plugins fn (map snd kvs) s = (vs, c, s')))"
proof (intro conjI allI impI)
  have runs: "Registry_each r fn s out \<longleftrightarrow>
            (\<exists>kvs. visit_order r kvs \<and> out = range_plugins fn (map snd kvs) s)" for out
    using blocks_of_each(1)[of r fn s out] assms each_of_blocks[of r _ fn s]
    unfolding visit_order_def by blast
  show "Registry_each r fn s out \<longleftrightarrow>
            (\<exists>kvs. visit_order r kvs \<and> out = range_plugins fn (map snd kvs) s)"
    by (rule runs)
  have "Registry_Each r fn s (vs, s') \<longleftrightarrow> (\<exists>c. Registry_each r fn s (vs, c, s'))"
    by (simp add: Registry_Each_def)
  also have "\<dots> \<longleftrightarrow>
      (\<exists>c kvs. visit_order r kvs \<and> (vs, c, s') = range_plugins fn (map snd kvs) s)"
    by (simp only: runs)
  also have "\<dots> \<longleftrightarrow>
      (\<exists>kvs c. visit_order r kvs \<and> range_plugins fn (map snd kvs) s = (vs, c, s'))"
    by (rule iffI; elim exE conjE; intro exI conjI; (assumption | rule sym))
  finally show "Registry_Each r fn s (vs, s') \<longleftrightarrow>
      (\<exists>kvs c. visit_order r kvs \<and> range_plugins fn (map snd kvs) s = (vs, c, s'))" .
next
  show "\<exists>kvs. visit_order r kvs"
    using blocks_exist[of "lookup_order r"] assms
    unfolding visit_order_def finite_registry_def by blast
next
  fix kvs name
  assume "visit_order r kvs"
  then show "Registry_find r name =
              (case map_of kvs name of Some p \<Rightarrow> (p, True) | None \<Rightarrow> (Plugin_zero, False))"
    unfolding visit_order_def
    by (auto simp add: map_of_blocks_first_match Registry_find_is_first_match)
next
  fix out'
  assume single: "\<forall>m \<in> set (lookup_order r). card (dom m) \<le> 1"
     and runs: "Registry_each r fn s out \<and> Registry_each r fn s out'"
  obtain b where b: "list_all2 map_range (lookup_order r) b"
      "out = range_plugins fn (map snd (concat b)) s"
    using blocks_of_each(1)[of r fn s out] runs assms by blast
  obtain b' where b': "list_all2 map_range (lookup_order r) b'"
      "out' = range_plugins fn (map snd (concat b')) s"
    using blocks_of_each(1)[of r fn s out'] runs assms by blast
  have "b = b'" using blocks_unique[OF b(1) b'(1) single] .
  with b b' show "out = out'" by simp
qed

theorem Registry_each_visit_order_witness:
  "finite_registry example_registry \<and>
   visit_order example_registry
     [(''a'', plugin ''a'' ''root''), (''b'', plugin ''b'' ''first child''),
      (''c'', plugin ''c'' ''second child''), (''b'', plugin ''b'' ''second child'')] \<and>
   Registry_each example_registry (stop_at ''b'') []
     ([plugin ''a'' ''root'', plugin ''b'' ''first child''], False, [''a'', ''b'']) \<and>
   Registry_find example_registry ''b'' = (plugin ''b'' ''first child'', True) \<and>
   card (dom [''a'' \<mapsto> plugin ''a'' ''root'']) \<le> 1 \<and>
   Registry_each (Registry [''a'' \<mapsto> plugin ''a'' ''root''] []) (stop_at ''b'') []
     ([plugin ''a'' ''root''], True, [''a'']) \<and>
   \<not> Registry_each (Registry [''a'' \<mapsto> plugin ''a'' ''root''] []) (stop_at ''b'') []
     ([], True, [])"
proof -
  let ?kvs = "[(''a'', plugin ''a'' ''root''), (''b'', plugin ''b'' ''first child''),
      (''c'', plugin ''c'' ''second child''), (''b'', plugin ''b'' ''second child'')]"
  let ?out = "([plugin ''a'' ''root'', plugin ''b'' ''first child''], False, [''a'', ''b''])"
  have fin: "finite_registry example_registry"
    by (simp add: finite_registry_def example_registry_def)
  note T = Registry_each_visit_order[OF fin, of "stop_at ''b''" "[]" ?out]
  have "list_all2 map_range (lookup_order example_registry)
          [[(''a'', plugin ''a'' ''root'')], [(''b'', plugin ''b'' ''first child'')],
           [(''c'', plugin ''c'' ''second child''), (''b'', plugin ''b'' ''second child'')]]"
    by (simp add: example_registry_def map_range_one map_range_two_swapped)
  then have vo: "visit_order example_registry ?kvs"
    unfolding visit_order_def by (intro exI conjI, assumption) simp
  have run: "?out = range_plugins (stop_at ''b'') (map snd ?kvs) []"
    by (simp add: stop_at_def plugin_def)
  have each: "Registry_each example_registry (stop_at ''b'') [] ?out"
    using T vo run by blast
  have find: "Registry_find example_registry ''b'' = (plugin ''b'' ''first child'', True)"
    using T[THEN conjunct2, THEN conjunct2, THEN conjunct1, rule_format, OF vo, of "''b''"]
    by simp
  let ?single = "Registry [''a'' \<mapsto> plugin ''a'' ''root''] []"
  have fin1: "finite_registry ?single" by (simp add: finite_registry_def)
  have single: "\<forall>m \<in> set (lookup_order ?single). card (dom m) \<le> 1" by simp
  have run1: "Registry_each ?single (stop_at ''b'') [] ([plugin ''a'' ''root''], True, [''a''])"
    using each_of_blocks[of ?single "[[(''a'', plugin ''a'' ''root'')]]" "stop_at ''b''" "[]"]
    by (simp add: map_range_one stop_at_def plugin_def)
  have det: "\<forall>out. Registry_each ?single (stop_at ''b'') [] out \<longrightarrow>
      out = ([plugin ''a'' ''root''], True, [''a''])"
    using Registry_each_visit_order[OF fin1, of "stop_at ''b''" "[]" "([plugin ''a'' ''root''], True, [''a''])"]
      single run1 by blast
  have other: "\<not> Registry_each ?single (stop_at ''b'') [] ([], True, [])"
    using det by blast
  have "card (dom [''a'' \<mapsto> plugin ''a'' ''root'']) \<le> 1" by simp
  with fin vo each find run1 other show ?thesis by blast
qed

subsection \<open>The store of cursor inputs\<close>

lemma tx_ok_1: "tx_ok faults 1 \<longleftrightarrow> opErr faults 0 = None \<and> commitErr faults = None"
  by (simp add: tx_ok_def)

lemma tx_ok_Suc_0:
  "tx_ok faults (Suc 0) \<longleftrightarrow> opErr faults 0 = None \<and> commitErr faults = None"
  by (simp add: tx_ok_def)

lemma tx_ok_2:
  "tx_ok faults 2 \<longleftrightarrow> opErr faults 0 = None \<and> opErr faults 1 = None \<and> commitErr faults = None"
  by (auto simp add: tx_ok_def numeral_2_eq_2 less_Suc_eq)

lemma Sprintf_internal_message:
  "Sprintf internal_failed_format [k] =
     ''Failed to update resource management fields for '' @ quoted k"
  by (simp add: quoted_def internal_failed_format_def)

lemma Sprintf_cursor_message:
  "Sprintf cursor_failed_format [k] =
     ''Failed to update state in the registry for '' @ quoted k"
  by (simp add: quoted_def cursor_failed_format_def)

text \<open>
  C5. \<open>store.UpdateInternal\<close> runs one transaction with one write: an update of the
  resource's key with the \<open>registryStateUpdateInternal\<close> document that holds the
  resource's \<open>TTL\<close> and its \<open>Updated\<close> instant, or the current time in its place when that
  instant is zero. When the transaction succeeds, the write is committed and \<open>stored\<close> and
  \<open>internalInSync\<close> are true afterwards. When it fails, nothing is committed,
  \<open>internalInSync\<close> is false afterwards, \<open>stored\<close> is as before, and one error message
  naming the key is logged. The function has no result, so no error reaches the caller.
\<close>

theorem store_UpdateInternal_write:
  assumes "store_UpdateInternal now faults s r = (s', r')"
  shows "let w = TxUpdate (key r)
                   (registryStateUpdateInternal
                      \<lparr>TTL = TTL (Internal (state r)),
                       Updated = (if IsZero (Updated (Internal (state r))) then now
                                  else Updated (Internal (state r)))\<rparr>)
         in attempted (persistentStore s') = attempted (persistentStore s) @ [[w]] \<and>
            (tx_ok faults 1 \<longrightarrow>
               committed (persistentStore s') = committed (persistentStore s) @ [[w]] \<and>
               stored r' \<and> internalInSync r' \<and> log s' = log s) \<and>
            (\<not> tx_ok faults 1 \<longrightarrow>
               committed (persistentStore s') = committed (persistentStore s) \<and>
               \<not> internalInSync r' \<and> stored r' = stored r \<and>
               log s' = log s @
                 [LogError (''Failed to update resource management fields for '' @ quoted (key r))])"
  using assms
  unfolding store_UpdateInternal_def Store_Update_def Tx_Update_def tx_ok_1 Let_def
  by (auto simp add: Sprintf_internal_message simp del: Sprintf.simps split: option.splits)

theorem store_UpdateInternal_write_witness:
  "tx_ok no_faults 1 \<and>
   committed (persistentStore
       (fst (store_UpdateInternal (Time 100 5) no_faults empty_store example_resource))) =
     [[TxUpdate ''log::f1'' (registryStateUpdateInternal \<lparr>TTL = 30, Updated = Time 100 5\<rparr>)]] \<and>
   stored (snd (store_UpdateInternal (Time 100 5) no_faults empty_store example_resource)) \<and>
   internalInSync (snd (store_UpdateInternal (Time 100 5) no_faults empty_store example_resource)) \<and>
   \<not> tx_ok commit_fails 1 \<and>
   attempted (persistentStore
       (fst (store_UpdateInternal (Time 100 5) commit_fails empty_store example_resource))) =
     [[TxUpdate ''log::f1'' (registryStateUpdateInternal \<lparr>TTL = 30, Updated = Time 100 5\<rparr>)]] \<and>
   committed (persistentStore
       (fst (store_UpdateInternal (Time 100 5) commit_fails empty_store example_resource))) = [] \<and>
   \<not> internalInSync
       (snd (store_UpdateInternal (Time 100 5) commit_fails empty_store example_resource)) \<and>
   log (fst (store_UpdateInternal (Time 100 5) commit_fails empty_store example_resource)) =
     [LogError (''Failed to update resource management fields for '' @ quoted ''log::f1'')]"
  using store_UpdateInternal_write
          [where now = "Time 100 5" and faults = no_faults and s = empty_store and
                 r = example_resource, OF surjective_pairing]
        store_UpdateInternal_write
          [where now = "Time 100 5" and faults = commit_fails and s = empty_store and
                 r = example_resource, OF surjective_pairing]
  by (simp add: Let_def tx_ok_1 tx_ok_Suc_0 no_faults_def commit_fails_def example_resource_def
        empty_store_def IsZero_def)

text \<open>
  C10. \<open>store.UpdateInternal\<close> leaves the resource's \<open>state\<close> (\<open>Internal\<close> with \<open>TTL\<close> and
  \<open>Updated\<close>, and \<open>Cursor\<close>) as it was, whether the write succeeds or fails: the resource
  after the call is the resource before it but for the flags \<open>stored\<close> and
  \<open>internalInSync\<close>. When \<open>Updated\<close> is the zero instant, the document written carries the
  current time, and the resource's \<open>Updated\<close> is still the zero instant. The table of
  resources is not touched.
\<close>

theorem store_UpdateInternal_frame:
  assumes "store_UpdateInternal now faults s r = (s', r')"
  shows "state r' = state r \<and>
         r' = r\<lparr>stored := stored r', internalInSync := internalInSync r'\<rparr> \<and>
         ephemeralStore s' = ephemeralStore s \<and>
         (IsZero (Updated (Internal (state r))) \<longrightarrow>
            last (attempted (persistentStore s')) =
              [TxUpdate (key r)
                 (registryStateUpdateInternal ((Internal (state r))\<lparr>Updated := now\<rparr>))] \<and>
            Updated (Internal (state r')) = Updated (Internal (state r)))"
  using assms
  unfolding store_UpdateInternal_def Store_Update_def Tx_Update_def Let_def
  by (auto simp del: Sprintf.simps split: option.splits)

theorem store_UpdateInternal_frame_witness:
  "IsZero (Updated (Internal (state example_resource))) \<and>
   state (snd (store_UpdateInternal (Time 100 5) no_faults empty_store example_resource)) =
     \<lparr>Internal = \<lparr>TTL = 30, Updated = Time 0 0\<rparr>, Cursor = VNil\<rparr> \<and>
   state (snd (store_UpdateInternal (Time 100 5) (op_fails 0) empty_store example_resource)) =
     \<lparr>Internal = \<lparr>TTL = 30, Updated = Time 0 0\<rparr>, Cursor = VNil\<rparr> \<and>
   last (attempted (persistentStore
       (fst (store_UpdateInternal (Time 100 5) no_faults empty_store example_resource)))) =
     [TxUpdate ''log::f1'' (registryStateUpdateInternal \<lparr>TTL = 30, Updated = Time 100 5\<rparr>)]"
  using store_UpdateInternal_frame
          [where now = "Time 100 5" and faults = no_faults and s = empty_store and
                 r = example_resource, OF surjective_pairing]
        store_UpdateInternal_frame
          [where now = "Time 100 5" and faults = "op_fails 0" and s = empty_store and
                 r = example_resource, OF surjective_pairing]
  by (simp add: example_resource_def IsZero_def)

text \<open>
  C3. \<open>store.UpdateCursor\<close> runs one transaction. When \<open>internalInSync\<close> is false, the
  transaction first writes the \<open>registryStateUpdateInternal\<close> document of the resource's
  current \<open>Internal\<close> and then the cursor update (when the first write fails, the second
  is not issued); when it is true, the transaction is the cursor update alone. When the
  transaction succeeds, all its writes are committed together, and \<open>internalInSync\<close> and
  \<open>stored\<close> are true afterwards, nothing else of the resource having changed. When it
  fails, nothing is committed, not even the first write, the resource is as before, and
  one error message naming the key is logged. The function has no result, so no error
  reaches the caller.
\<close>

theorem store_UpdateCursor_flush:
  assumes "store_UpdateCursor faults s r ts cur = (s', r')"
  shows "let I = TxUpdate (key r) (registryStateUpdateInternal (Internal (state r)));
             C = TxUpdate (key r) (registryStateUpdateCursor ts cur);
             n = (if internalInSync r then 1 else 2)
         in length (attempted (persistentStore s')) = length (attempted (persistentStore s)) + 1 \<and>
            (internalInSync r \<longrightarrow> last (attempted (persistentStore s')) = [C]) \<and>
            (\<not> internalInSync r \<and> opErr faults 0 = None \<longrightarrow>
               last (attempted (persistentStore s')) = [I, C]) \<and>
            (\<not> internalInSync r \<and> opErr faults 0 \<noteq> None \<longrightarrow>
               last (attempted (persistentStore s')) = [I]) \<and>
            (tx_ok faults n \<longrightarrow>
               committed (persistentStore s') =
                 committed (persistentStore s) @ [last (attempted (persistentStore s'))] \<and>
               r' = r\<lparr>internalInSync := True, stored := True\<rparr> \<and> log s' = log s) \<and>
            (\<not> tx_ok faults n \<longrightarrow>
               committed (persistentStore s') = committed (persistentStore s) \<and>
               r' = r \<and>
               log s' = log s @
                 [LogError (''Failed to update state in the registry for '' @ quoted (key r))])"
  using assms
  unfolding store_UpdateCursor_def Store_Update_def Tx_Update_def Let_def
  by (auto simp add: tx_ok_Suc_0 tx_ok_2 Sprintf_cursor_message simp del: Sprintf.simps
           split: option.splits if_splits)

theorem store_UpdateCursor_flush_witness:
  "\<not> internalInSync example_resource \<and> tx_ok no_faults 2 \<and>
   committed (persistentStore
       (fst (store_UpdateCursor no_faults empty_store example_resource (Time 200 0) (VInt 30)))) =
     [[TxUpdate ''log::f1'' (registryStateUpdateInternal \<lparr>TTL = 30, Updated = Time 0 0\<rparr>),
       TxUpdate ''log::f1'' (registryStateUpdateCursor (Time 200 0) (VInt 30))]] \<and>
   internalInSync
       (snd (store_UpdateCursor no_faults empty_store example_resource (Time 200 0) (VInt 30))) \<and>
   stored (snd (store_UpdateCursor no_faults empty_store example_resource (Time 200 0) (VInt 30))) \<and>
   \<not> tx_ok (op_fails 1) 2 \<and>
   attempted (persistentStore
       (fst (store_UpdateCursor (op_fails 1) empty_store example_resource (Time 200 0) (VInt 30)))) =
     [[TxUpdate ''log::f1'' (registryStateUpdateInternal \<lparr>TTL = 30, Updated = Time 0 0\<rparr>),
       TxUpdate ''log::f1'' (registryStateUpdateCursor (Time 200 0) (VInt 30))]] \<and>
   committed (persistentStore
       (fst (store_UpdateCursor (op_fails 1) empty_store example_resource (Time 200 0) (VInt 30)))) =
     [] \<and>
   snd (store_UpdateCursor (op_fails 1) empty_store example_resource (Time 200 0) (VInt 30)) =
     example_resource \<and>
   log (fst (store_UpdateCursor (op_fails 1) empty_store example_resource (Time 200 0) (VInt 30))) =
     [LogError (''Failed to update state in the registry for '' @ quoted ''log::f1'')] \<and>
   internalInSync (example_resource\<lparr>internalInSync := True\<rparr>) \<and>
   committed (persistentStore
       (fst (store_UpdateCursor no_faults empty_store (example_resource\<lparr>internalInSync := True\<rparr>)
               (Time 200 0) (VInt 30)))) =
     [[TxUpdate ''log::f1'' (registryStateUpdateCursor (Time 200 0) (VInt 30))]]"
proof -
  note ok = store_UpdateCursor_flush
          [where faults = no_faults and s = empty_store and r = example_resource and
                 ts = "Time 200 0" and cur = "VInt 30", OF surjective_pairing]
  note bad = store_UpdateCursor_flush
          [where faults = "op_fails 1" and s = empty_store and r = example_resource and
                 ts = "Time 200 0" and cur = "VInt 30", OF surjective_pairing]
  note sync = store_UpdateCursor_flush
          [where faults = no_faults and s = empty_store and
                 r = "example_resource\<lparr>internalInSync := True\<rparr>" and
                 ts = "Time 200 0" and cur = "VInt 30", OF surjective_pairing]
  have l: "length xs = Suc 0 \<Longrightarrow> last xs = y \<Longrightarrow> xs = [y]" for xs :: "txOp list list" and y
    by (cases xs) auto
  from ok bad sync show ?thesis
    by (auto simp add: Let_def tx_ok_2 tx_ok_Suc_0 no_faults_def op_fails_def example_resource_def
          empty_store_def dest: l)
qed

text \<open>
  C6. With the table mutex free, \<open>states.Find\<close> returns and leaves the mutex free. When
  the table has a resource under the key, it returns that resource, with its \<open>pending\<close>
  count incremented by one (in \<open>uint64\<close> arithmetic: by one as a number unless the count
  was at its maximum) and nothing else changed: not the table, not any other resource.
  When the key is absent and \<open>create\<close> is true, it allocates a resource with
  \<open>stored = false\<close>, a nil cursor and the key, stores it in the table under the key and
  returns it with a \<open>pending\<close> count of one; no other resource changes. When the key is
  absent and \<open>create\<close> is false, it returns nil and changes nothing. When every pointer
  of the table is an allocated address, the same holds afterwards, so a resource created
  by \<open>Find\<close> is no resource the table held before.
\<close>

theorem states_Find_table:
  assumes "\<not> mu s"
  shows "\<exists>r s' mem'.
     states_Find k create s mem = Some (r, s', mem') \<and> \<not> mu s' \<and>
     (\<forall>a. table s k = Some a \<longrightarrow>
        r = Some a \<and> s' = s \<and> next_free mem' = next_free mem \<and>
        cells mem' a = (cells mem a)\<lparr>pending := pending (cells mem a) + 1\<rparr> \<and>
        (1 + pending (cells mem a) \<noteq> 0 \<longrightarrow>
           unat (pending (cells mem' a)) = unat (pending (cells mem a)) + 1) \<and>
        (\<forall>b. b \<noteq> a \<longrightarrow> cells mem' b = cells mem b)) \<and>
     (table s k = None \<and> create \<longrightarrow>
        r = Some (next_free mem) \<and> s' = s\<lparr>table := (table s)(k \<mapsto> next_free mem)\<rparr> \<and>
        next_free mem' = next_free mem + 1 \<and>
        cells mem' (next_free mem) =
          \<lparr>pending = 1, lock = False, stored = False, internalInSync = False, key = k,
           state = \<lparr>Internal = \<lparr>TTL = 0, Updated = Time 0 0\<rparr>, Cursor = VNil\<rparr>\<rparr> \<and>
        IsNew (cells mem' (next_free mem)) \<and>
        (\<forall>b. b \<noteq> next_free mem \<longrightarrow> cells mem' b = cells mem b)) \<and>
     (table s k = None \<and> \<not> create \<longrightarrow> r = None \<and> s' = s \<and> mem' = mem) \<and>
     ((\<forall>k' a. table s k' = Some a \<longrightarrow> a < next_free mem) \<longrightarrow>
        (\<forall>k' a. table s' k' = Some a \<longrightarrow> a < next_free mem'))"
proof (cases "table s k")
  case None
  with assms show ?thesis
    by (cases create)
       (auto simp add: states_Find_def Let_def new_resource_def resource_Retain_def IsNew_def
             less_Suc_eq)
next
  case (Some a)
  with assms show ?thesis
    by (auto simp add: states_Find_def Let_def resource_Retain_def unatSuc add.commute)
qed

theorem states_Find_table_witness:
  "\<not> mu example_states \<and>
   (\<exists>s' mem'. states_Find ''log::f1'' False example_states example_memory =
        Some (Some 0, s', mem') \<and>
      s' = example_states \<and> pending (cells mem' 0) = 2 \<and> unat (pending (cells mem' 0)) = 2) \<and>
   (\<exists>s' mem'. states_Find ''log::f2'' True example_states example_memory =
        Some (Some 1, s', mem') \<and>
      table s' ''log::f2'' = Some 1 \<and> pending (cells mem' 1) = 1 \<and>
      \<not> stored (cells mem' 1) \<and> IsNew (cells mem' 1) \<and> cells mem' 0 = example_resource) \<and>
   states_Find ''log::f2'' False example_states example_memory =
     Some (None, example_states, example_memory)"
proof -
  have free: "\<not> mu example_states" by (simp add: example_states_def)
  note present =
    states_Find_table[OF free, of "''log::f1''" False example_memory]
  note created =
    states_Find_table[OF free, of "''log::f2''" True example_memory]
  note missing =
    states_Find_table[OF free, of "''log::f2''" False example_memory]
  have a: "\<exists>s' mem'. states_Find ''log::f1'' False example_states example_memory =
        Some (Some 0, s', mem') \<and>
      s' = example_states \<and> pending (cells mem' 0) = 2 \<and> unat (pending (cells mem' 0)) = 2"
    using present
    by (auto simp add: example_states_def example_memory_def example_resource_def)
  have b: "\<exists>s' mem'. states_Find ''log::f2'' True example_states example_memory =
        Some (Some 1, s', mem') \<and>
      table s' ''log::f2'' = Some 1 \<and> pending (cells mem' 1) = 1 \<and>
      \<not> stored (cells mem' 1) \<and> IsNew (cells mem' 1) \<and> cells mem' 0 = example_resource"
    using created
    by (auto simp add: example_states_def example_memory_def)
  have c: "states_Find ''log::f2'' False example_states example_memory =
     Some (None, example_states, example_memory)"
    using missing
    by (auto simp add: example_states_def example_memory_def)
  from free a b c show ?thesis by blast
qed

subsection \<open>The ACK handler\<close>

lemma ack_scan_inv:
  "i \<le> length priv \<Longrightarrow> ack_scan priv i n last_i = (n', last') \<Longrightarrow>
   n' = n + of_nat (length (update_ops (drop i priv))) \<and>
   (update_ops (drop i priv) = [] \<longrightarrow> last' = last_i) \<and>
   (update_ops (drop i priv) \<noteq> [] \<longrightarrow>
      last' < length priv \<and> priv ! last' = PrivUpdateOp (last (update_ops (drop i priv))))"
proof (induction priv i n last_i arbitrary: n' last' rule: ack_scan.induct)
  case (1 priv i n last_i)
  show ?case
  proof (cases "i < length priv")
    case False
    with "1.prems" show ?thesis by simp
  next
    case True
    then have d: "drop i priv = priv ! i # drop (Suc i) priv"
      by (simp add: Cons_nth_drop_Suc)
    show ?thesis
    proof (cases "priv ! i")
      case PrivNil
      with True "1.prems" have "ack_scan priv (i + 1) n last_i = (n', last')" by simp
      from "1.IH"(1)[OF True PrivNil _ this] True have
        "n' = n + of_nat (length (update_ops (drop (i + 1) priv))) \<and>
         (update_ops (drop (i + 1) priv) = [] \<longrightarrow> last' = last_i) \<and>
         (update_ops (drop (i + 1) priv) \<noteq> [] \<longrightarrow>
            last' < length priv \<and>
            priv ! last' = PrivUpdateOp (last (update_ops (drop (i + 1) priv))))"
        by simp
      then show ?thesis using d PrivNil by simp
    next
      case (PrivOther x)
      with True "1.prems" have "ack_scan priv (i + 1) n last_i = (n', last')" by simp
      from "1.IH"(3)[OF True PrivOther _ this] True have
        "n' = n + of_nat (length (update_ops (drop (i + 1) priv))) \<and>
         (update_ops (drop (i + 1) priv) = [] \<longrightarrow> last' = last_i) \<and>
         (update_ops (drop (i + 1) priv) \<noteq> [] \<longrightarrow>
            last' < length priv \<and>
            priv ! last' = PrivUpdateOp (last (update_ops (drop (i + 1) priv))))"
        by simp
      then show ?thesis using d PrivOther by simp
    next
      case (PrivUpdateOp op)
      with True "1.prems" have "ack_scan priv (i + 1) (n + 1) i = (n', last')" by simp
      from "1.IH"(2)[OF True PrivUpdateOp _ this] True have
        "n' = n + 1 + of_nat (length (update_ops (drop (i + 1) priv))) \<and>
         (update_ops (drop (i + 1) priv) = [] \<longrightarrow> last' = i) \<and>
         (update_ops (drop (i + 1) priv) \<noteq> [] \<longrightarrow>
            last' < length priv \<and>
            priv ! last' = PrivUpdateOp (last (update_ops (drop (i + 1) priv))))"
        by simp
      then show ?thesis using d PrivUpdateOp True by (auto simp add: algebra_simps)
    qed
  qed
qed

lemma length_update_ops: "length (update_ops priv) \<le> length priv"
  by (induction priv rule: update_ops.induct) auto

lemma update_ops_map: "update_ops (map PrivUpdateOp ops) = ops"
  by (induction ops) auto

lemma count_fits:
  assumes "length priv < 2 ^ LENGTH('w::len)"
  shows "(of_nat (length (update_ops priv)) :: 'w word) = 0 \<longleftrightarrow> update_ops priv = []"
    and "unat (of_nat (length (update_ops priv)) :: 'w word) = length (update_ops priv)"
proof -
  have lt: "length (update_ops priv) < 2 ^ LENGTH('w)"
    using assms length_update_ops[of priv] by (rule le_less_trans[rotated])
  show "unat (of_nat (length (update_ops priv)) :: 'w word) = length (update_ops priv)"
    using lt by (simp add: unat_of_nat)
  then show "(of_nat (length (update_ops priv)) :: 'w word) = 0 \<longleftrightarrow> update_ops priv = []"
    by (cases "update_ops priv") auto
qed

lemma inputACKHandler_char:
  fixes Execute :: "'op \<Rightarrow> 'w::len word \<Rightarrow> 's \<Rightarrow> 's"
  assumes "length priv < 2 ^ LENGTH('w)"
  shows "inputACKHandler Execute acked priv s =
           (if update_ops priv = [] then Returned s
            else Returned (Execute (last (update_ops priv))
                             (of_nat (length (update_ops priv))) s))"
proof -
  obtain n :: "'w word" and last_i where scan: "ack_scan priv 0 0 0 = (n, last_i)"
    by (cases "ack_scan priv 0 (0 :: 'w word) 0") auto
  from ack_scan_inv[OF _ scan] have
    n: "n = of_nat (length (update_ops priv))" and
    l: "update_ops priv \<noteq> [] \<Longrightarrow>
          last_i < length priv \<and> priv ! last_i = PrivUpdateOp (last (update_ops priv))"
    by simp_all
  show ?thesis
  proof (cases "update_ops priv = []")
    case True
    with n scan show ?thesis by (simp add: inputACKHandler_def)
  next
    case False
    then have "n \<noteq> 0" using n count_fits(1)[OF assms] by simp
    with False l scan n show ?thesis by (simp add: inputACKHandler_def)
  qed
qed

lemma inputACKHandler_update_ops_only:
  fixes Execute :: "'op \<Rightarrow> 'w::len word \<Rightarrow> 's \<Rightarrow> 's"
  assumes "length priv < 2 ^ LENGTH('w)"
  shows "inputACKHandler Execute acked priv s =
           inputACKHandler Execute acked'
             (map PrivUpdateOp (update_ops priv) :: ('op, 'y) private_value list) s"
proof -
  let ?only = "map PrivUpdateOp (update_ops priv) :: ('op, 'y) private_value list"
  have "length ?only < 2 ^ LENGTH('w)"
    using assms length_update_ops[of priv] by simp
  from inputACKHandler_char[OF this, of Execute acked' s]
  have "inputACKHandler Execute acked' ?only s =
          (if update_ops priv = [] then Returned s
           else Returned (Execute (last (update_ops priv))
                            (of_nat (length (update_ops priv))) s))"
    by (simp only: update_ops_map)
  with inputACKHandler_char[OF assms, of Execute acked s] show ?thesis by simp
qed

text \<open>
  C2. For every batch the pipeline can deliver (a slice shorter than \<open>2 ^ w\<close> for the width
  \<open>w\<close> of \<open>uint\<close>; a Go slice is shorter than \<open>2 ^ (w - 1)\<close>), the ACK handler returns,
  without a panic. Entries that are nil or no update operations are ignored: the outcome
  is that of the batch of the update operations alone, and does not depend on the count
  of acknowledged events. When the batch has no update operation, nothing is executed.
  Otherwise \<open>Execute\<close> is called exactly once, on the last update operation of the
  slice, with the number of update operations of the batch as its count. So at most one
  execution, hence at most one cursor update, reaches the store per batch, and it is
  that of the last operation.
\<close>

theorem inputACKHandler_collapse:
  fixes Execute :: "'op \<Rightarrow> 'w::len word \<Rightarrow> 's \<Rightarrow> 's"
  assumes "length priv < 2 ^ LENGTH('w)"
  shows "(update_ops priv = [] \<longrightarrow> inputACKHandler Execute acked priv s = Returned s) \<and>
         (update_ops priv \<noteq> [] \<longrightarrow>
            inputACKHandler Execute acked priv s =
              Returned (Execute (last (update_ops priv))
                          (of_nat (length (update_ops priv))) s) \<and>
            unat (of_nat (length (update_ops priv)) :: 'w word) = length (update_ops priv)) \<and>
         inputACKHandler (\<lambda>op (n :: 'w word) calls. calls @ [(op, n)]) acked priv [] =
           Returned (if update_ops priv = [] then []
                     else [(last (update_ops priv), of_nat (length (update_ops priv)))]) \<and>
         inputACKHandler Execute acked priv s =
           inputACKHandler Execute acked' (map PrivUpdateOp (update_ops priv)) s"
proof (intro conjI impI)
  assume "update_ops priv = []"
  then show "inputACKHandler Execute acked priv s = Returned s"
    using inputACKHandler_char[OF assms, of Execute acked s] by simp
next
  assume "update_ops priv \<noteq> []"
  then show "inputACKHandler Execute acked priv s =
              Returned (Execute (last (update_ops priv))
                          (of_nat (length (update_ops priv))) s)"
    using inputACKHandler_char[OF assms, of Execute acked s] by simp
next
  show "unat (of_nat (length (update_ops priv)) :: 'w word) = length (update_ops priv)"
    by (rule count_fits(2)[OF assms])
next
  show "inputACKHandler (\<lambda>op (n :: 'w word) calls. calls @ [(op, n)]) acked priv [] =
           Returned (if update_ops priv = [] then []
                     else [(last (update_ops priv), of_nat (length (update_ops priv)))])"
    using inputACKHandler_char[OF assms, of "\<lambda>op n calls. calls @ [(op, n)]" acked "[]"]
    by simp
next
  show "inputACKHandler Execute acked priv s =
           inputACKHandler Execute acked' (map PrivUpdateOp (update_ops priv)) s"
    by (rule inputACKHandler_update_ops_only[OF assms])
qed

theorem inputACKHandler_collapse_witness:
  "length example_batch < 2 ^ LENGTH(64) \<and>
   update_ops example_batch = [(Time 1 0, VInt 10), (Time 2 0, VInt 20), (Time 3 0, VInt 30)] \<and>
   inputACKHandler (\<lambda>op (n :: 64 word) calls. calls @ [(op, n)]) 6 example_batch [] =
     Returned [((Time 3 0, VInt 30), 3)] \<and>
   inputACKHandler persist_cursor 6 example_batch
       (empty_store, example_resource\<lparr>internalInSync := True\<rparr>) =
     Returned
       (empty_store\<lparr>persistentStore :=
          \<lparr>committed = [[TxUpdate ''log::f1'' (registryStateUpdateCursor (Time 3 0) (VInt 30))]],
           attempted = [[TxUpdate ''log::f1'' (registryStateUpdateCursor (Time 3 0) (VInt 30))]]\<rparr>\<rparr>,
        example_resource\<lparr>internalInSync := True, stored := True\<rparr>) \<and>
   inputACKHandler persist_cursor 0 [PrivNil, PrivOther ''foreign'']
       (empty_store, example_resource) =
     Returned (empty_store, example_resource)"
proof -
  have len: "length example_batch < 2 ^ LENGTH(64)" by (simp add: example_batch_def)
  have ops: "update_ops example_batch =
      [(Time 1 0, VInt 10), (Time 2 0, VInt 20), (Time 3 0, VInt 30)]"
    by (simp add: example_batch_def)
  have len2: "length [PrivNil, PrivOther ''foreign'' :: (Time \<times> Value, string) private_value]
                < 2 ^ LENGTH(64)"
    by simp
  note trace =
    inputACKHandler_collapse[OF len, where acked = 6 and s = "[]" and
      Execute = "\<lambda>op (n :: 64 word) calls. calls @ [(op, n)]"]
  note run =
    inputACKHandler_collapse[OF len, where acked = 6 and Execute = persist_cursor and
      s = "(empty_store, example_resource\<lparr>internalInSync := True\<rparr>)"]
  note none =
    inputACKHandler_collapse[OF len2, where acked = 0 and Execute = persist_cursor and
      s = "(empty_store, example_resource)"]
  have a: "inputACKHandler (\<lambda>op (n :: 64 word) calls. calls @ [(op, n)]) 6 example_batch [] =
     Returned [((Time 3 0, VInt 30), 3)]"
    using trace[THEN conjunct2, THEN conjunct2, THEN conjunct1] ops by simp
  have b: "inputACKHandler persist_cursor 6 example_batch
       (empty_store, example_resource\<lparr>internalInSync := True\<rparr>) =
     Returned
       (empty_store\<lparr>persistentStore :=
          \<lparr>committed = [[TxUpdate ''log::f1'' (registryStateUpdateCursor (Time 3 0) (VInt 30))]],
           attempted = [[TxUpdate ''log::f1'' (registryStateUpdateCursor (Time 3 0) (VInt 30))]]\<rparr>\<rparr>,
        example_resource\<lparr>internalInSync := True, stored := True\<rparr>)"
    using run[THEN conjunct2, THEN conjunct1] ops
    by (simp add: persist_cursor_def store_UpdateCursor_def Store_Update_def Tx_Update_def Let_def
          no_faults_def empty_store_def example_resource_def)
  have c: "inputACKHandler persist_cursor 0 [PrivNil, PrivOther ''foreign'']
       (empty_store, example_resource) = Returned (empty_store, example_resource)"
    using none[THEN conjunct1] by simp
  from len ops a b c show ?thesis by blast
qed

end
